theory Spec2Isabelle
  imports Complex_Main "HOL-Library.Word"
begin

section \<open>Derived maps: optical attenuation coefficient\<close>

text \<open>
  \<^verbatim>\<open>Part3_Processor.py\<close> works on 2-D numpy arrays of float64. An array is modelled as
  the list of its rows (axis 0 is depth, axis 1 the lateral position); numpy arrays are
  rectangular, which \<open>rectangular H W\<close> states for shape \<open>(H, W)\<close>. Floating-point
  arithmetic is modelled by the exact arithmetic of \<open>real\<close> that it approximates.
\<close>

type_synonym image = "real list list"

definition rectangular :: "nat \<Rightarrow> nat \<Rightarrow> image \<Rightarrow> bool" where
  "rectangular H W img \<longleftrightarrow> length img = H \<and> list_all (\<lambda>r. length r = W) img"

text \<open>
  \<^verbatim>\<open>np.cumsum(a, axis=0)\<close>: row \<open>i\<close> of the result is the elementwise sum of rows
  \<open>0, \<dots>, i\<close>. \<open>cumsum_from acc\<close> carries the running row.
\<close>

fun cumsum_from :: "real list \<Rightarrow> image \<Rightarrow> image" where
  "cumsum_from acc [] = []"
| "cumsum_from acc (r # rs) = (let a = map2 (+) acc r in a # cumsum_from a rs)"

definition cumsum_axis0 :: "image \<Rightarrow> image" where
  "cumsum_axis0 img = (case img of [] \<Rightarrow> [] | r # rs \<Rightarrow> r # cumsum_from r rs)"

text \<open>
  Lines 34-37 of \<^verbatim>\<open>calculate_oac\<close>: \<^verbatim>\<open>intensity[::-1, :]\<close> reverses the rows, the
  running sum is taken, reversed back, and half the local intensity is subtracted.
\<close>

definition denom_term :: "image \<Rightarrow> image" where
  "denom_term intensity =
     (let I_rev = rev intensity;
          cumsum_rev = cumsum_axis0 I_rev;
          cumsum_from_bottom = rev cumsum_rev
      in map2 (map2 (\<lambda>c x. c - 0.5 * x)) cumsum_from_bottom intensity)"

text \<open>Lines 33 and 38-39: \<^verbatim>\<open>mu = intensity / (2 * h_px * (denom_term + epsilon))\<close>.\<close>

definition calculate_oac :: "image \<Rightarrow> real \<Rightarrow> image" where
  "calculate_oac intensity h_px =
     (let epsilon = 1 / 10 ^ 10;
          mu = map2 (map2 (\<lambda>x d. x / (2 * h_px * (d + epsilon)))) intensity (denom_term intensity)
      in mu)"

section \<open>Derived maps: speckle contrast\<close>

text \<open>
  \<^verbatim>\<open>scipy.ndimage.uniform_filter(data, fsize, mode='reflect')\<close> is a library function,
  modelled by its documented behaviour: a running mean of \<open>fsize\<close> samples (the argument \<^verbatim>\<open>size\<close>) along axis 0,
  then along axis 1. The window of output index \<open>i\<close> covers the input indices
  \<open>i - fsize div 2, \<dots>, i - fsize div 2 + fsize - 1\<close>, and an index outside the array is
  reflected about the edge of the last sample (\<open>d c b a | a b c d | d c b a\<close>). An axis
  whose size is at most 1 is not filtered.
\<close>

definition reflect_index :: "int \<Rightarrow> nat \<Rightarrow> nat" where
  "reflect_index k n =
     (let m = nat (k mod (2 * int n)) in if m < n then m else 2 * n - 1 - m)"

definition window :: "nat \<Rightarrow> nat \<Rightarrow> nat \<Rightarrow> nat list" where
  "window fsize n i = map (\<lambda>k. reflect_index (int i - int (fsize div 2) + int k) n) [0..<fsize]"

definition ncols :: "image \<Rightarrow> nat" where
  "ncols img = (case img of [] \<Rightarrow> 0 | r # _ \<Rightarrow> length r)"

definition uniform_filter_axis0 :: "nat \<Rightarrow> image \<Rightarrow> image" where
  "uniform_filter_axis0 fsize img =
     map (\<lambda>i. map (\<lambda>j. (\<Sum>r\<leftarrow>window fsize (length img) i. img ! r ! j) / real fsize)
                [0..<ncols img])
         [0..<length img]"

definition uniform_filter_axis1 :: "nat \<Rightarrow> image \<Rightarrow> image" where
  "uniform_filter_axis1 fsize img =
     map (\<lambda>row. map (\<lambda>j. (\<Sum>c\<leftarrow>window fsize (length row) j. row ! c) / real fsize)
                  [0..<length row])
         img"

definition uniform_filter :: "image \<Rightarrow> nat \<Rightarrow> image" where
  "uniform_filter input fsize =
     (if fsize > 1 then uniform_filter_axis1 fsize (uniform_filter_axis0 fsize input) else input)"

text \<open>
  Lines 42-47 of \<^verbatim>\<open>calculate_speckle_contrast_map\<close>: the local mean, the local standard
  deviation (negative variances set to 0) and their quotient, on the whole image.
\<close>

definition mean_val :: "image \<Rightarrow> nat \<Rightarrow> image" where
  "mean_val data window_size = uniform_filter data window_size"

definition mean_sq_val :: "image \<Rightarrow> nat \<Rightarrow> image" where
  "mean_sq_val data window_size = uniform_filter (map (map (\<lambda>x. x ^ 2)) data) window_size"

definition std_val :: "image \<Rightarrow> nat \<Rightarrow> image" where
  "std_val data window_size =
     (let var_val = map2 (map2 (\<lambda>q m. q - m ^ 2))
                      (mean_sq_val data window_size) (mean_val data window_size);
          var_val = map (map (\<lambda>v. if v < 0 then 0 else v)) var_val
      in map (map sqrt) var_val)"

definition sc_map :: "image \<Rightarrow> nat \<Rightarrow> image" where
  "sc_map data window_size =
     map2 (map2 (\<lambda>s m. s / (m + 1 / 10 ^ 10))) (std_val data window_size) (mean_val data window_size)"

text \<open>
  The slice \<^verbatim>\<open>a[border:-border]\<close> along one axis. For \<open>border = 0\<close> the stop index
  \<^verbatim>\<open>-0\<close> is 0 and the slice is empty; otherwise it keeps the indices from \<open>border\<close> up
  to \<open>len - border - 1\<close>.
\<close>

definition slice_border :: "nat \<Rightarrow> 'a list \<Rightarrow> 'a list" where
  "slice_border border xs = (if border = 0 then [] else drop border (take (length xs - border) xs))"

text \<open>
  \<^verbatim>\<open>np.pad(a, pad_width, mode='edge')\<close>: an empty axis cannot be extended and raises
  \<^verbatim>\<open>ValueError\<close>; an empty array padded by nothing is returned as it is; otherwise axis 0
  and then axis 1 are extended on both sides by copies of the edge values.
\<close>

datatype np_error = ValueError

definition pad_edge :: "nat \<Rightarrow> 'a list \<Rightarrow> 'a list" where
  "pad_edge pad_width xs = replicate pad_width (hd xs) @ xs @ replicate pad_width (last xs)"

definition np_pad_edge :: "image \<Rightarrow> nat \<Rightarrow> np_error + image" where
  "np_pad_edge a pad_width =
     (if a = [] \<or> ncols a = 0 then (if pad_width > 0 then Inl ValueError else Inr a)
      else Inr (map (pad_edge pad_width) (pad_edge pad_width a)))"

text \<open>Lines 41-55. The window size is a natural number (20 by default).\<close>

definition calculate_speckle_contrast_map :: "image \<Rightarrow> nat \<Rightarrow> np_error + image" where
  "calculate_speckle_contrast_map data window_size =
     (let border = window_size div 2;
          sc_map_cropped = map (slice_border border) (slice_border border (sc_map data window_size));
          sc_map_padded = np_pad_edge sc_map_cropped border
      in sc_map_padded)"

text \<open>Multiplication of an image by a constant, \<^verbatim>\<open>c * data\<close>.\<close>

definition scale :: "real \<Rightarrow> image \<Rightarrow> image" where
  "scale c data = map (map (\<lambda>x. c * x)) data"

section \<open>Tiered significance\<close>

text \<open>
  A metric value is a float64: a finite number, \<^verbatim>\<open>+inf\<close> (the PSNR of two equal
  images), \<^verbatim>\<open>-inf\<close>, or \<^verbatim>\<open>nan\<close> (the marker of an unavailable metric). Finite
  numbers are modelled by \<open>real\<close> with exact arithmetic; the infinities and NaN follow
  the IEEE rules: a comparison with NaN is false, \<open>inf - inf\<close> and \<open>0 * inf\<close> are NaN.
\<close>

datatype score = Num real | PInf | NInf | NaN

fun isnan :: "score \<Rightarrow> bool" where
  "isnan NaN = True"
| "isnan _ = False"

fun score_less :: "score \<Rightarrow> score \<Rightarrow> bool" where
  "score_less NaN _ = False"
| "score_less _ NaN = False"
| "score_less (Num a) (Num b) = (a < b)"
| "score_less PInf _ = False"
| "score_less _ NInf = False"
| "score_less _ _ = True"

fun score_le :: "score \<Rightarrow> score \<Rightarrow> bool" where
  "score_le NaN _ = False"
| "score_le _ NaN = False"
| "score_le (Num a) (Num b) = (a \<le> b)"
| "score_le NInf _ = True"
| "score_le _ PInf = True"
| "score_le _ _ = False"

fun score_neg :: "score \<Rightarrow> score" where
  "score_neg (Num a) = Num (- a)"
| "score_neg PInf = NInf"
| "score_neg NInf = PInf"
| "score_neg NaN = NaN"

fun score_add :: "score \<Rightarrow> score \<Rightarrow> score" where
  "score_add NaN _ = NaN"
| "score_add _ NaN = NaN"
| "score_add (Num a) (Num b) = Num (a + b)"
| "score_add PInf NInf = NaN"
| "score_add NInf PInf = NaN"
| "score_add PInf _ = PInf"
| "score_add _ PInf = PInf"
| "score_add NInf _ = NInf"
| "score_add _ NInf = NInf"

definition score_sub :: "score \<Rightarrow> score \<Rightarrow> score" where
  "score_sub a b = score_add a (score_neg b)"

text \<open>The product of a finite number \<open>t\<close> and a float, the square and the square root.\<close>

fun score_scale :: "real \<Rightarrow> score \<Rightarrow> score" where
  "score_scale t (Num a) = Num (t * a)"
| "score_scale t PInf = (if 0 < t then PInf else if t < 0 then NInf else NaN)"
| "score_scale t NInf = (if 0 < t then NInf else if t < 0 then PInf else NaN)"
| "score_scale t NaN = NaN"

fun score_sq :: "score \<Rightarrow> score" where
  "score_sq (Num a) = Num (a * a)"
| "score_sq PInf = PInf"
| "score_sq NInf = PInf"
| "score_sq NaN = NaN"

fun score_sqrt :: "score \<Rightarrow> score" where
  "score_sqrt (Num a) = (if a < 0 then NaN else Num (sqrt a))"
| "score_sqrt PInf = PInf"
| "score_sqrt NInf = NaN"
| "score_sqrt NaN = NaN"

text \<open>
  Python's built-in \<^verbatim>\<open>max(a, b)\<close> keeps \<open>a\<close> unless \<open>b > a\<close>, and \<^verbatim>\<open>min(a, b)\<close>
  keeps \<open>a\<close> unless \<open>b < a\<close>.
\<close>

definition py_max :: "score \<Rightarrow> score \<Rightarrow> score" where
  "py_max a b = (if score_less a b then b else a)"

definition py_min :: "score \<Rightarrow> score \<Rightarrow> score" where
  "py_min a b = (if score_less b a then b else a)"

text \<open>
  \<^verbatim>\<open>Series.dropna().values\<close>: the entries of a column, in order, without the NaNs.
  Infinite entries stay.
\<close>

fun dropna :: "score list \<Rightarrow> score list" where
  "dropna [] = []"
| "dropna (NaN # xs) = dropna xs"
| "dropna (x # xs) = x # dropna xs"

subsection \<open>The numpy reductions\<close>

text \<open>
  The reductions are library functions, modelled by their documented behaviour.
  \<^verbatim>\<open>np.min\<close> and \<^verbatim>\<open>np.max\<close> are used on lists without NaN only. \<^verbatim>\<open>np.std\<close> is the
  population standard deviation (\<^verbatim>\<open>ddof=0\<close>): the root of the mean of the squared
  deviations from the mean.
\<close>

definition np_sum :: "score list \<Rightarrow> score" where
  "np_sum v = foldr score_add v (Num 0)"

definition np_mean :: "score list \<Rightarrow> score" where
  "np_mean v = score_scale (1 / real (length v)) (np_sum v)"

fun np_min :: "score list \<Rightarrow> score" where
  "np_min [] = NaN"
| "np_min [x] = x"
| "np_min (x # xs) = (let m = np_min xs in if score_less x m then x else m)"

fun np_max :: "score list \<Rightarrow> score" where
  "np_max [] = NaN"
| "np_max [x] = x"
| "np_max (x # xs) = (let m = np_max xs in if score_less m x then x else m)"

definition np_std :: "score list \<Rightarrow> score" where
  "np_std v = score_sqrt (np_mean (map (\<lambda>x. score_sq (score_sub x (np_mean v))) v))"

text \<open>Sorting a list without NaN in ascending order (insertion into a sorted list).\<close>

fun insort_score :: "score \<Rightarrow> score list \<Rightarrow> score list" where
  "insort_score x [] = [x]"
| "insort_score x (y # ys) = (if score_le x y then x # y # ys else y # insort_score x ys)"

definition np_sort :: "score list \<Rightarrow> score list" where
  "np_sort v = foldr insort_score v []"

text \<open>
  \<^verbatim>\<open>np.percentile(v, q)\<close> with numpy's default linear method. A list holding a NaN
  gives NaN. Otherwise, with the sorted values \<open>arr\<close> and the virtual index
  \<open>(n - 1) * q / 100\<close>, numpy takes the entries at the floor of the virtual index and at
  the next index (twice the last entry when the virtual index reaches \<open>n - 1\<close>), and
  interpolates with \<^verbatim>\<open>_lerp\<close>: \<open>a + (b - a) * t\<close> for \<open>t < 0.5\<close> and
  \<open>b - (b - a) * (1 - t)\<close> otherwise. With an infinite entry the difference \<open>b - a\<close> can
  be NaN or infinite, and so can the result.
\<close>

definition lerp :: "score \<Rightarrow> score \<Rightarrow> real \<Rightarrow> score" where
  "lerp a b t =
     (let diff_b_a = score_sub b a
      in if 1 / 2 \<le> t then score_sub b (score_scale (1 - t) diff_b_a)
         else score_add a (score_scale t diff_b_a))"

definition np_percentile :: "score list \<Rightarrow> real \<Rightarrow> score" where
  "np_percentile vals q =
     (if vals = [] \<or> NaN \<in> set vals then NaN
      else
        (let arr = np_sort vals;
             n = length arr;
             virtual_index = (real n - 1) * (q / 100);
             above_bounds = (real n - 1 \<le> virtual_index);
             previous = (if above_bounds then n - 1 else nat \<lfloor>virtual_index\<rfloor>);
             next = (if above_bounds then n - 1 else nat \<lfloor>virtual_index\<rfloor> + 1);
             gamma = (if above_bounds then virtual_index + 1
                      else virtual_index - of_int \<lfloor>virtual_index\<rfloor>)
         in lerp (arr ! previous) (arr ! next) gamma))"

text \<open>
  The same statistics of a non-empty list of finite numbers, as real numbers: the
  linearly interpolated percentile and the population standard deviation.
\<close>

definition percentile :: "real list \<Rightarrow> real \<Rightarrow> real" where
  "percentile w q =
     (let arr = sort w;
          n = length arr;
          virtual_index = (real n - 1) * (q / 100);
          previous = nat \<lfloor>virtual_index\<rfloor>;
          next = min (previous + 1) (n - 1);
          gamma = virtual_index - real previous
      in arr ! previous + (arr ! next - arr ! previous) * gamma)"

definition mean :: "real list \<Rightarrow> real" where
  "mean w = sum_list w / real (length w)"

definition pstdev :: "real list \<Rightarrow> real" where
  "pstdev w = sqrt (mean (map (\<lambda>x. (x - mean w) * (x - mean w)) w))"

subsection \<open>Star rating of the publication plots\<close>

text \<open>
  \<^verbatim>\<open>Metrics_Plots_with_Intervals_and_SignificanceLevel.py\<close>, \<^verbatim>\<open>get_stats_and_rating\<close>.
  A data frame is a map from column names to columns. Lines 85-108 compute the star
  label from the statistics of the two value lists; the labels \<open>''''\<close>, \<open>''(*)''\<close>,
  \<open>''(**)''\<close>, \<open>''(***)''\<close> are the verdicts None, Significant, HighlySignificant and
  RobustlySeparated.
\<close>

type_synonym dataframe = "string \<rightharpoonup> score list"

definition star_label ::
  "score \<Rightarrow> score \<Rightarrow> score \<Rightarrow> score \<Rightarrow> score \<Rightarrow> score \<Rightarrow> score \<Rightarrow> score \<Rightarrow> score \<Rightarrow> score \<Rightarrow> string" where
  "star_label l1 h1 l2 h2 min1 max1 std1 min2 max2 std2 =
     (let overlap_95 = score_le (py_max l1 l2) (py_min h1 h2) in
      if \<not> overlap_95 then
        (let overlap_100 = score_le (py_max min1 min2) (py_min max1 max2) in
         if \<not> overlap_100 then
           (let gap = (if score_less max2 min1 then score_sub min1 max2 else score_sub min2 max1) in
            if score_less (score_add std1 std2) gap then ''(***)'' else ''(**)'')
         else ''(*)'')
      else '''')"

record stats =
  intra :: "score \<times> score \<times> score"
  inter :: "score \<times> score \<times> score"
  stars :: string

definition get_stats_and_rating :: "dataframe \<Rightarrow> dataframe \<Rightarrow> string \<Rightarrow> stats option" where
  "get_stats_and_rating df_intra df_inter metric =
     (case df_intra metric of None \<Rightarrow> None | Some c1 \<Rightarrow>
      (case df_inter metric of None \<Rightarrow> None | Some c2 \<Rightarrow>
        (let v1 = dropna c1; v2 = dropna c2 in
         if length v1 = 0 \<or> length v2 = 0 then None
         else
           (let mu1 = np_mean v1; l1 = np_percentile v1 2.5; h1 = np_percentile v1 97.5;
                mu2 = np_mean v2; l2 = np_percentile v2 2.5; h2 = np_percentile v2 97.5;
                min1 = np_min v1; max1 = np_max v1; std1 = np_std v1;
                min2 = np_min v2; max2 = np_max v2; std2 = np_std v2
            in Some \<lparr>intra = (mu1, score_sub mu1 l1, score_sub h1 mu1),
                      inter = (mu2, score_sub mu2 l2, score_sub h2 mu2),
                      stars = star_label l1 h1 l2 h2 min1 max1 std1 min2 max2 std2\<rparr>))))"

subsection \<open>Diagnostic power in the neighbour-band analysis\<close>

text \<open>Line 92-93 of the analysis script.\<close>

definition check_interval_overlap :: "score \<Rightarrow> score \<Rightarrow> score \<Rightarrow> score \<Rightarrow> bool" where
  "check_interval_overlap low1 high1 low2 high2 = score_le (py_max low1 low2) (py_min high1 high2)"

text \<open>
  Lines 184-193 of \<^verbatim>\<open>run_analysis\<close>: the baseline interval of one metric. The argument
  is the value list of the bucket \<^verbatim>\<open>Intra_<reference set>\<close>, or \<open>None\<close> when that bucket
  does not exist, in which case line 204 falls back to \<^verbatim>\<open>(nan, nan)\<close>.
\<close>

definition baseline_interval :: "score list option \<Rightarrow> score \<times> score" where
  "baseline_interval base_vals =
     (case base_vals of
        None \<Rightarrow> (NaN, NaN)
      | Some vals \<Rightarrow>
          if vals \<noteq> [] then (np_percentile vals 2.5, np_percentile vals 97.5) else (NaN, NaN))"

text \<open>
  Lines 197-213: the \<^verbatim>\<open>Diagnostic_Power\<close> entry of the summary row of bucket \<open>tag\<close> with
  the non-empty value list \<open>vals\<close>; empty buckets produce no row (\<open>None\<close>).
\<close>

definition diagnostic_power ::
  "string \<Rightarrow> score list option \<Rightarrow> string \<Rightarrow> score list \<Rightarrow> bool option" where
  "diagnostic_power base_tag base_vals tag vals =
     (if vals = [] then None
      else
        (let low = np_percentile vals 2.5;
             high = np_percentile vals 97.5;
             is_overlap = True;
             (base_low, base_high) = baseline_interval base_vals;
             is_overlap = (if tag \<noteq> base_tag \<and> \<not> isnan base_low
                           then check_interval_overlap base_low base_high low high
                           else is_overlap)
         in Some (\<not> is_overlap)))"

section \<open>Similarity evaluation of an image pair\<close>

text \<open>
  The two scoring functions, \<^verbatim>\<open>calc_pair_metrics\<close> of the analysis script and
  \<^verbatim>\<open>calculate_all_metrics\<close> of \<^verbatim>\<open>Orchestrator.py\<close>, call library functions on the
  images of two files. The library calls are parameters of the model, collected in a
  record; a call that raises returns \<open>None\<close>. \<open>imread\<close> stands for
  \<^verbatim>\<open>img_as_float(io.imread(p, as_gray=True))\<close>, \<open>lpips\<close> for the call of the LPIPS
  network on the two rescaled images broadcast to three channels.
\<close>

type_synonym u8image = "8 word list list"

record collaborators =
  path_exists :: "string \<Rightarrow> bool"
  imread :: "string \<Rightarrow> image option"
  resize :: "image \<Rightarrow> nat \<times> nat \<Rightarrow> image option"
  mse :: "image \<Rightarrow> image \<Rightarrow> score option"
  psnr :: "image \<Rightarrow> image \<Rightarrow> score option"
  ssim :: "image \<Rightarrow> image \<Rightarrow> score option"
  SEWAR_AVAILABLE :: bool
  vifp :: "u8image \<Rightarrow> u8image \<Rightarrow> score option"
  msssim :: "u8image \<Rightarrow> u8image \<Rightarrow> score option"
  ML_AVAILABLE :: bool
  LPIPS_AVAILABLE :: bool
  lpips :: "image \<Rightarrow> image \<Rightarrow> score option"

text \<open>The \<^verbatim>\<open>.shape\<close> of a 2-D array held as a non-empty list of rows.\<close>

definition shape :: "'a list list \<Rightarrow> nat \<times> nat" where
  "shape img = (length img, (case img of [] \<Rightarrow> 0 | r # _ \<Rightarrow> length r))"

text \<open>
  \<^verbatim>\<open>(img * 255).astype(np.uint8)\<close>. The product is a float64 product: the exact
  product rounded to the nearest number with a 53-bit significand, ties to the even
  significand (\<open>fl64\<close>; exponent range and subnormal numbers are left out, they do not
  matter for products in \<open>[0, 255]\<close>). This rounding is modelled here, and not
  idealised, because the conversion that follows is not continuous: the cast to an
  unsigned byte drops the fractional part (rounding toward zero); the integer is then
  reduced to 8 bits. For image values in \<open>[0, 1]\<close> nothing wraps.
\<close>

definition round_half_even :: "real \<Rightarrow> int" where
  "round_half_even y =
     (let f = \<lfloor>y\<rfloor>; r = y - of_int f
      in if r < 1 / 2 then f else if 1 / 2 < r then f + 1 else if even f then f else f + 1)"

definition fl64 :: "real \<Rightarrow> real" where
  "fl64 x =
     (if x = 0 then 0
      else (let e = \<lfloor>log 2 \<bar>x\<bar>\<rfloor>;
                ulp = 2 powr (of_int e - 52)
            in of_int (round_half_even (x / ulp)) * ulp))"

definition trunc_toward_zero :: "real \<Rightarrow> int" where
  "trunc_toward_zero x = (if 0 \<le> x then \<lfloor>x\<rfloor> else \<lceil>x\<rceil>)"

definition astype_uint8 :: "real \<Rightarrow> 8 word" where
  "astype_uint8 x = word_of_int (trunc_toward_zero x)"

definition to_uint8 :: "image \<Rightarrow> u8image" where
  "to_uint8 img = map (map (\<lambda>v. astype_uint8 (fl64 (v * 255)))) img"

text \<open>The rescaling \<^verbatim>\<open>t * 2 - 1\<close> from \<open>[0, 1]\<close> to \<open>[-1, 1]\<close> before LPIPS.\<close>

definition rescale_lpips :: "image \<Rightarrow> image" where
  "rescale_lpips img = map (map (\<lambda>t. t * 2 - 1)) img"

definition or_nan :: "score option \<Rightarrow> score" where
  "or_nan r = (case r of None \<Rightarrow> NaN | Some v \<Rightarrow> v)"

text \<open>
  \<^verbatim>\<open>calc_pair_metrics\<close> (analysis script, lines 59-82). The whole body is inside one
  \<^verbatim>\<open>try\<close> whose handler is \<^verbatim>\<open>pass\<close>, so a call that raises ends the function with the
  scores stored so far; the VIF and MS-SSIM calls have handlers of their own that store
  NaN. On a shape mismatch line 64 returns an empty dictionary.
\<close>

definition calc_pair_metrics :: "collaborators \<Rightarrow> string \<Rightarrow> string \<Rightarrow> (string \<rightharpoonup> score)" where
  "calc_pair_metrics E p1 p2 =
     (let res = Map.empty in
      case imread E p1 of None \<Rightarrow> res | Some i1 \<Rightarrow>
      (case imread E p2 of None \<Rightarrow> res | Some i2 \<Rightarrow>
       if shape i1 \<noteq> shape i2 then Map.empty
       else
       (case mse E i1 i2 of None \<Rightarrow> res | Some v_mse \<Rightarrow>
        (let res = res(''MSE'' \<mapsto> v_mse) in
         case psnr E i1 i2 of None \<Rightarrow> res | Some v_psnr \<Rightarrow>
         (let res = res(''PSNR'' \<mapsto> v_psnr) in
          case ssim E i1 i2 of None \<Rightarrow> res | Some v_ssim \<Rightarrow>
          (let res = res(''SSIM'' \<mapsto> v_ssim);
               res = (if SEWAR_AVAILABLE E then
                        (let u1 = to_uint8 i1; u2 = to_uint8 i2;
                             res = res(''VIF'' \<mapsto> or_nan (vifp E u1 u2));
                             res = res(''MS-SSIM'' \<mapsto> or_nan (msssim E u1 u2))
                         in res)
                      else res)
           in if ML_AVAILABLE E then
                (case lpips E (rescale_lpips i1) (rescale_lpips i2) of
                   None \<Rightarrow> res
                 | Some v_lpips \<Rightarrow> res(''LPIPS'' \<mapsto> v_lpips))
              else res))))))"

text \<open>
  \<^verbatim>\<open>calculate_all_metrics\<close> (\<^verbatim>\<open>Orchestrator.py\<close>, lines 63-112). It returns \<^verbatim>\<open>None\<close>
  when a file is missing or when a call outside the inner handlers raises. On a shape
  mismatch line 75 resizes the target image to the shape of the reference image and
  goes on.
\<close>

definition calculate_all_metrics ::
  "collaborators \<Rightarrow> string \<Rightarrow> string \<Rightarrow> (string \<rightharpoonup> score) option" where
  "calculate_all_metrics E path_ref path_target =
     (if \<not> path_exists E path_ref \<or> \<not> path_exists E path_target then None
      else
      case imread E path_ref of None \<Rightarrow> None | Some img_ref \<Rightarrow>
      (case imread E path_target of None \<Rightarrow> None | Some img_read \<Rightarrow>
       (case (if shape img_ref \<noteq> shape img_read then resize E img_read (shape img_ref)
              else Some img_read) of None \<Rightarrow> None | Some img_tar \<Rightarrow>
        (case mse E img_ref img_tar of None \<Rightarrow> None | Some v_mse \<Rightarrow>
         (case psnr E img_ref img_tar of None \<Rightarrow> None | Some v_psnr \<Rightarrow>
          (case ssim E img_ref img_tar of None \<Rightarrow> None | Some v_ssim \<Rightarrow>
           (let results = [''MSE'' \<mapsto> v_mse, ''PSNR'' \<mapsto> v_psnr, ''SSIM'' \<mapsto> v_ssim];
                results = (if SEWAR_AVAILABLE E then
                             (let ref_u8 = to_uint8 img_ref; tar_u8 = to_uint8 img_tar;
                                  results = results(''VIF'' \<mapsto> or_nan (vifp E ref_u8 tar_u8));
                                  results = results(''MS-SSIM'' \<mapsto> or_nan (msssim E ref_u8 tar_u8))
                              in results)
                           else results(''VIF'' \<mapsto> NaN, ''MS-SSIM'' \<mapsto> NaN));
                results = (if LPIPS_AVAILABLE E then
                             results(''LPIPS'' \<mapsto>
                               or_nan (lpips E (rescale_lpips img_ref) (rescale_lpips img_tar)))
                           else results(''LPIPS'' \<mapsto> NaN))
            in Some results)))))))"

text \<open>
  Collaborators of an example run: two files holding an 8 by 8 and an 8 by 7 image of
  constant value, a resize that returns an image of the requested shape, metric calls
  that return without raising, and no optional library.
\<close>

definition example_run :: collaborators where
  "example_run =
     \<lparr>path_exists = (\<lambda>p. p = ''Scan_A.png'' \<or> p = ''Scan_B.png''),
      imread = (\<lambda>p. if p = ''Scan_A.png'' then Some (replicate 8 (replicate 8 (1 / 2)))
                     else if p = ''Scan_B.png'' then Some (replicate 8 (replicate 7 (1 / 2)))
                     else None),
      resize = (\<lambda>img s. Some (replicate (fst s) (replicate (snd s) (1 / 2)))),
      mse = (\<lambda>a b. Some (Num 0)),
      psnr = (\<lambda>a b. Some (Num 100)),
      ssim = (\<lambda>a b. Some (Num 1)),
      SEWAR_AVAILABLE = False,
      vifp = (\<lambda>a b. None),
      msssim = (\<lambda>a b. None),
      ML_AVAILABLE = False,
      LPIPS_AVAILABLE = False,
      lpips = (\<lambda>a b. None)\<rparr>"

text \<open>The same run with the multi-scale similarity library present.\<close>

definition example_run_sewar :: collaborators where
  "example_run_sewar =
     example_run\<lparr>SEWAR_AVAILABLE := True,
                  vifp := (\<lambda>a b. if a = b then Some (Num 1) else None),
                  msssim := (\<lambda>a b. None)\<rparr>"

section \<open>Pairing policy of the neighbour-band analysis\<close>

text \<open>
  The analysis script \<^verbatim>\<open>Metric_Performance_Test_v5_MicroMesoMacro_Empirical.py\<close> fixes
  two module constants and, inside \<^verbatim>\<open>run_analysis\<close>, classifies every pair of folders and
  enumerates the index pairs that are scored. Python integers are modelled by \<open>int\<close>,
  Python strings by \<open>string\<close>.
\<close>

definition REFERENCE_SET :: string where
  "REFERENCE_SET = ''Meso_Amp''"

definition NEIGHBOR_DEPTH :: int where
  "NEIGHBOR_DEPTH = 5"

text \<open>Python's \<^verbatim>\<open>range(a, b)\<close>: the integers from \<open>a\<close> up to \<open>b - 1\<close>.\<close>

definition py_range :: "int \<Rightarrow> int \<Rightarrow> int list" where
  "py_range a b = [a..b - 1]"

text \<open>
  Lines 134-145 of \<^verbatim>\<open>run_analysis\<close>: the \<^verbatim>\<open>if/elif\<close> chain computing \<^verbatim>\<open>c_type\<close> and
  \<^verbatim>\<open>tag\<close> of a pair of folder names. The reference set is a parameter; the script uses
  \<^const>\<open>REFERENCE_SET\<close>.
\<close>

definition comparison_tag :: "string \<Rightarrow> string \<Rightarrow> string \<Rightarrow> string \<times> string" where
  "comparison_tag ref name_a name_b =
     (if name_a = name_b then (''Intra'', ''Intra_'' @ name_a)
      else if name_a = ref then (''Inter'', ''Inter_'' @ name_b)
      else if name_b = ref then (''Inter'', ''Inter_'' @ name_a)
      else (''Cross'', ''Cross_'' @ name_a @ ''_vs_'' @ name_b))"

definition c_type_of :: "string \<Rightarrow> string \<Rightarrow> string \<Rightarrow> string" where
  "c_type_of ref name_a name_b = fst (comparison_tag ref name_a name_b)"

text \<open>
  Lines 156-161: the range of partner indices \<^verbatim>\<open>j_range\<close> for source index \<open>i\<close>, given
  the comparison type, the neighbour depth and the lengths of the two file lists.
\<close>

definition j_range :: "string \<Rightarrow> int \<Rightarrow> nat \<Rightarrow> nat \<Rightarrow> int \<Rightarrow> int list" where
  "j_range c_type d len_a len_b i =
     (if c_type = ''Intra'' then py_range (i + 1) (min (i + 1 + d) (int len_a))
      else (let j_start = max 0 (i - d);
                j_end = min (int len_b) (i + d + 1)
            in py_range j_start j_end))"

text \<open>Lines 163-164: the partners that reach the scoring call (the \<^verbatim>\<open>continue\<close> skips the rest).\<close>

definition partners :: "string \<Rightarrow> int \<Rightarrow> nat \<Rightarrow> nat \<Rightarrow> int \<Rightarrow> int list" where
  "partners c_type d len_a len_b i =
     filter (\<lambda>j. \<not> (c_type \<noteq> ''Intra'' \<and> i = j)) (j_range c_type d len_a len_b i)"

text \<open>Lines 155-166: all index pairs \<open>(i, j)\<close> handed to \<^verbatim>\<open>calc_pair_metrics\<close>, in loop order.\<close>

definition compared_pairs :: "string \<Rightarrow> int \<Rightarrow> nat \<Rightarrow> nat \<Rightarrow> (int \<times> int) list" where
  "compared_pairs c_type d len_a len_b =
     concat (map (\<lambda>i. map (Pair i) (partners c_type d len_a len_b i)) (py_range 0 (int len_a)))"

section \<open>Properties\<close>

subsection \<open>Optical attenuation coefficient\<close>

lemma sum_cons_shift:
  fixes r :: "real list"
  shows "(\<Sum>k\<le>Suc m. (r # rs) ! k ! j) = r ! j + (\<Sum>k\<le>m. rs ! k ! j)"
  by (subst sum.atMost_Suc_shift) simp

lemma length_cumsum_from: "length (cumsum_from acc rs) = length rs"
  by (induction rs arbitrary: acc) (auto simp: Let_def)

lemma length_cumsum_axis0: "length (cumsum_axis0 img) = length img"
  by (cases img) (auto simp: cumsum_axis0_def length_cumsum_from)

lemma cumsum_from_row_length:
  "length acc = W \<Longrightarrow> list_all (\<lambda>r. length r = W) rs \<Longrightarrow> i < length rs \<Longrightarrow>
   length (cumsum_from acc rs ! i) = W"
proof (induction rs arbitrary: acc i)
  case Nil
  then show ?case by simp
next
  case (Cons r rs)
  then show ?case by (cases i) (auto simp: Let_def)
qed

lemma cumsum_from_nth:
  "length acc = W \<Longrightarrow> list_all (\<lambda>r. length r = W) rs \<Longrightarrow> i < length rs \<Longrightarrow> j < W \<Longrightarrow>
   cumsum_from acc rs ! i ! j = acc ! j + (\<Sum>k\<le>i. rs ! k ! j)"
proof (induction rs arbitrary: acc i)
  case Nil
  then show ?case by simp
next
  case (Cons r rs)
  show ?case
  proof (cases i)
    case 0
    with Cons.prems show ?thesis by (simp add: Let_def)
  next
    case (Suc m)
    have "cumsum_from (map2 (+) acc r) rs ! m ! j = map2 (+) acc r ! j + (\<Sum>k\<le>m. rs ! k ! j)"
      using Cons.prems Suc by (intro Cons.IH) auto
    moreover have "(\<Sum>k\<le>Suc m. (r # rs) ! k ! j) = r ! j + (\<Sum>k\<le>m. rs ! k ! j)"
      by (rule sum_cons_shift)
    ultimately show ?thesis using Cons.prems Suc by (simp add: Let_def)
  qed
qed

lemma cumsum_axis0_row_length:
  "rectangular H W img \<Longrightarrow> i < H \<Longrightarrow> length (cumsum_axis0 img ! i) = W"
  by (cases img; cases i) (auto simp: cumsum_axis0_def rectangular_def cumsum_from_row_length)

lemma cumsum_axis0_nth:
  assumes "rectangular H W img" "i < H" "j < W"
  shows "cumsum_axis0 img ! i ! j = (\<Sum>k\<le>i. img ! k ! j)"
proof (cases img)
  case Nil
  with assms show ?thesis by (simp add: rectangular_def)
next
  case (Cons r rs)
  show ?thesis
  proof (cases i)
    case 0
    then show ?thesis by (simp add: Cons cumsum_axis0_def)
  next
    case (Suc m)
    have "cumsum_from r rs ! m ! j = r ! j + (\<Sum>k\<le>m. rs ! k ! j)"
      using assms Cons Suc by (intro cumsum_from_nth[where W = W]) (auto simp: rectangular_def)
    moreover have "(\<Sum>k\<le>Suc m. (r # rs) ! k ! j) = r ! j + (\<Sum>k\<le>m. rs ! k ! j)"
      by (rule sum_cons_shift)
    ultimately show ?thesis by (simp add: Cons Suc cumsum_axis0_def)
  qed
qed

lemma rectangular_rev: "rectangular H W img \<Longrightarrow> rectangular H W (rev img)"
  by (simp add: rectangular_def list_all_iff)

lemma rectangular_row: "rectangular H W img \<Longrightarrow> i < H \<Longrightarrow> length (img ! i) = W"
  by (auto simp: rectangular_def list_all_length)

lemma sum_rev_rows:
  fixes f :: "nat \<Rightarrow> real"
  assumes "i < H"
  shows "(\<Sum>k\<le>H - 1 - i. f (H - 1 - k)) = (\<Sum>k = i..<H. f k)"
proof (rule sum.reindex_bij_witness[where i = "\<lambda>k. H - 1 - k" and j = "\<lambda>k. H - 1 - k"])
qed (use assms in auto)

lemma cumsum_from_bottom_nth:
  assumes "rectangular H W img" "i < H" "j < W"
  shows "rev (cumsum_axis0 (rev img)) ! i ! j = (\<Sum>k = i..<H. img ! k ! j)"
proof -
  have len: "length img = H" using assms by (simp add: rectangular_def)
  have "rev (cumsum_axis0 (rev img)) ! i = cumsum_axis0 (rev img) ! (H - 1 - i)"
    using assms len by (simp add: rev_nth length_cumsum_axis0)
  also have "\<dots> ! j = (\<Sum>k\<le>H - 1 - i. rev img ! k ! j)"
    using assms by (intro cumsum_axis0_nth[where H = H and W = W] rectangular_rev) auto
  also have "\<dots> = (\<Sum>k\<le>H - 1 - i. img ! (H - 1 - k) ! j)"
    using assms len by (intro sum.cong) (auto simp: rev_nth)
  also have "\<dots> = (\<Sum>k = i..<H. img ! k ! j)"
    using assms by (intro sum_rev_rows)
  finally show ?thesis .
qed

lemma cumsum_from_bottom_row_length:
  assumes "rectangular H W img" "i < H"
  shows "length (rev (cumsum_axis0 (rev img)) ! i) = W"
proof -
  have len: "length img = H" using assms by (simp add: rectangular_def)
  have "rev (cumsum_axis0 (rev img)) ! i = cumsum_axis0 (rev img) ! (H - 1 - i)"
    using assms len by (simp add: rev_nth length_cumsum_axis0)
  then show ?thesis
    using assms by (simp add: cumsum_axis0_row_length[where H = H] rectangular_rev)
qed

lemma length_denom_term: "length (denom_term img) = length img"
  by (simp add: denom_term_def Let_def length_cumsum_axis0)

lemma denom_term_row_length:
  assumes "rectangular H W img" "i < H"
  shows "length (denom_term img ! i) = W"
  using assms
  by (simp add: denom_term_def Let_def length_cumsum_axis0 rectangular_def
      rectangular_row[OF assms] cumsum_from_bottom_row_length[OF assms])

lemma denom_term_nth:
  assumes "rectangular H W img" "i < H" "j < W"
  shows "denom_term img ! i ! j = (\<Sum>k = i..<H. img ! k ! j) - img ! i ! j / 2"
  using assms
  by (simp add: denom_term_def Let_def length_cumsum_axis0 rectangular_def
      rectangular_row[OF assms(1,2)] cumsum_from_bottom_row_length[OF assms(1,2)]
      cumsum_from_bottom_nth[OF assms])

lemma calculate_oac_length: "length (calculate_oac img h) = length img"
  by (simp add: calculate_oac_def Let_def length_denom_term)

lemma calculate_oac_row_length:
  assumes "rectangular H W img" "i < H"
  shows "length (calculate_oac img h ! i) = W"
  using assms
  by (simp add: calculate_oac_def Let_def length_denom_term rectangular_def
      rectangular_row[OF assms] denom_term_row_length[OF assms])

lemma calculate_oac_nth:
  assumes "rectangular H W img" "i < H" "j < W"
  shows "calculate_oac img h ! i ! j =
     img ! i ! j / (2 * h * (denom_term img ! i ! j + 1 / 10 ^ 10))"
  using assms
  by (simp add: calculate_oac_def Let_def length_denom_term rectangular_def
      rectangular_row[OF assms(1,2)] denom_term_row_length[OF assms(1,2)])

lemma rectangular_calculate_oac:
  assumes "rectangular H W img"
  shows "rectangular H W (calculate_oac img h)"
  using assms calculate_oac_row_length[OF assms]
  by (auto simp: rectangular_def calculate_oac_length list_all_length)

lemma suffix_sum_ge_head:
  fixes f :: "nat \<Rightarrow> real"
  assumes "i < H" "\<forall>k<H. 0 \<le> f k"
  shows "f i \<le> (\<Sum>k = i..<H. f k)"
proof -
  have "(\<Sum>k = i..<H. f k) = f i + (\<Sum>k = Suc i..<H. f k)"
    using assms(1) by (simp add: sum.atLeast_Suc_lessThan)
  moreover have "0 \<le> (\<Sum>k = Suc i..<H. f k)"
    using assms(2) by (intro sum_nonneg) auto
  ultimately show ?thesis by linarith
qed

text \<open>
  Claim C1. For an intensity image of shape \<open>(H, W)\<close> and any depth pixel size \<open>h\<close>
  (positive or not), \<^verbatim>\<open>calculate_oac\<close> returns a map of the same shape whose value at
  pixel \<open>(i, j)\<close> is \<open>intensity / (2 * h * (D + epsilon))\<close>, where \<open>D\<close> is the sum of
  the intensities of column \<open>j\<close> at row \<open>i\<close> and all deeper rows, minus half the local
  intensity, and \<open>epsilon = 1e-10\<close>.
\<close>

theorem calculate_oac_formula:
  assumes "rectangular H W intensity"
  shows "rectangular H W (calculate_oac intensity h)
   \<and> (\<forall>i<H. \<forall>j<W. calculate_oac intensity h ! i ! j =
         intensity ! i ! j /
           (2 * h * (((\<Sum>k = i..<H. intensity ! k ! j) - intensity ! i ! j / 2) + 1 / 10 ^ 10)))"
  using assms
  by (simp add: rectangular_calculate_oac calculate_oac_nth[OF assms] denom_term_nth[OF assms])

theorem calculate_oac_formula_witness:
  "rectangular 2 2 [[1, 2], [3, 4]]
   \<and> calculate_oac [[1, 2], [3, 4]] 6 ! 0 ! 1 = 2 / (2 * 6 * (((2 + 4) - 2 / 2) + 1 / 10 ^ 10))
   \<and> calculate_oac [[1, 2], [3, 4]] 6 ! 1 ! 0 = 3 / (2 * 6 * ((3 - 3 / 2) + 1 / 10 ^ 10))"
proof -
  have r: "rectangular 2 2 [[1, 2], [3, 4]]" by (simp add: rectangular_def)
  have s01: "(\<Sum>k = 0..<2. [[1, 2], [3, 4::real]] ! k ! 1) = 2 + 4"
    by (simp add: numeral_2_eq_2)
  have s10: "(\<Sum>k = 1..<2. [[1, 2], [3, 4::real]] ! k ! 0) = 3"
    by (simp add: numeral_2_eq_2)
  from calculate_oac_formula[OF r, of 6]
  have a: "calculate_oac [[1, 2], [3, 4]] 6 ! 0 ! 1 =
      [[1, 2], [3, 4::real]] ! 0 ! 1 / (2 * 6 * (((\<Sum>k = 0..<2. [[1, 2], [3, 4::real]] ! k ! 1) - [[1, 2], [3, 4::real]] ! 0 ! 1 / 2) + 1 / 10 ^ 10))"
    and b: "calculate_oac [[1, 2], [3, 4]] 6 ! 1 ! 0 =
      [[1, 2], [3, 4::real]] ! 1 ! 0 / (2 * 6 * (((\<Sum>k = 1..<2. [[1, 2], [3, 4::real]] ! k ! 0) - [[1, 2], [3, 4::real]] ! 1 ! 0 / 2) + 1 / 10 ^ 10))"
    by simp_all
  show ?thesis using r a b unfolding s01 s10 by simp
qed

text \<open>
  Claim C10. If every entry of the image is non-negative and \<open>h\<close> is positive, every
  entry of the map returned by \<^verbatim>\<open>calculate_oac\<close> is non-negative: the denominator
  term at each pixel is at least half the local intensity, and epsilon is positive.
\<close>

theorem calculate_oac_nonneg:
  assumes rect: "rectangular H W intensity"
    and nonneg: "\<forall>r\<in>set intensity. \<forall>x\<in>set r. 0 \<le> x"
    and h: "0 < h"
  shows "(\<forall>r\<in>set (calculate_oac intensity h). \<forall>x\<in>set r. 0 \<le> x)
   \<and> (\<forall>i<H. \<forall>j<W. intensity ! i ! j / 2 \<le> denom_term intensity ! i ! j)"
proof -
  have len: "length intensity = H" using rect by (simp add: rectangular_def)
  have px: "0 \<le> intensity ! i ! j" if "i < H" "j < W" for i j
  proof -
    have "intensity ! i \<in> set intensity" using that len by simp
    moreover have "intensity ! i ! j \<in> set (intensity ! i)"
      using that rectangular_row[OF rect that(1)] by simp
    ultimately show ?thesis using nonneg by blast
  qed
  have den: "intensity ! i ! j / 2 \<le> denom_term intensity ! i ! j" if "i < H" "j < W" for i j
  proof -
    have "intensity ! i ! j \<le> (\<Sum>k = i..<H. intensity ! k ! j)"
      using that px by (intro suffix_sum_ge_head) auto
    then show ?thesis by (simp add: denom_term_nth[OF rect that])
  qed
  have out: "0 \<le> calculate_oac intensity h ! i ! j" if "i < H" "j < W" for i j
  proof -
    have "0 \<le> denom_term intensity ! i ! j" using den[OF that] px[OF that] by linarith
    then have "0 \<le> 2 * h * (denom_term intensity ! i ! j + 1 / 10 ^ 10)"
      using h by simp
    then show ?thesis
      using px[OF that] by (simp add: calculate_oac_nth[OF rect that])
  qed
  have "0 \<le> x" if "r \<in> set (calculate_oac intensity h)" "x \<in> set r" for r x
  proof -
    from that(1) obtain i where i: "i < H" "r = calculate_oac intensity h ! i"
      by (auto simp: in_set_conv_nth calculate_oac_length len)
    from that(2) i obtain j where j: "j < W" "x = r ! j"
      by (auto simp: in_set_conv_nth calculate_oac_row_length[OF rect i(1)])
    show ?thesis using out[OF i(1) j(1)] i j by simp
  qed
  with den show ?thesis by blast
qed

theorem calculate_oac_nonneg_witness:
  "rectangular 2 2 [[1, 2], [3, 4]] \<and> list_all (list_all (\<lambda>x. 0 \<le> x)) [[1, 2], [3, 4::real]]
   \<and> (0::real) < 6
   \<and> list_all (list_all (\<lambda>x. 0 \<le> x)) (calculate_oac [[1, 2], [3, 4]] 6)
   \<and> [[1, 2], [3, 4::real]] ! 1 ! 0 / 2 \<le> denom_term [[1, 2], [3, 4]] ! 1 ! 0"
proof -
  have r: "rectangular 2 2 [[1, 2], [3, 4]]" by (simp add: rectangular_def)
  have n: "\<forall>r\<in>set [[1, 2], [3, 4::real]]. \<forall>x\<in>set r. 0 \<le> x" by simp
  have h: "(0::real) < 6" by simp
  from calculate_oac_nonneg[OF r n h]
  have a: "\<forall>r\<in>set (calculate_oac [[1, 2], [3, 4]] 6). \<forall>x\<in>set r. 0 \<le> x"
    and b: "\<forall>i<2. \<forall>j<2. [[1, 2], [3, 4::real]] ! i ! j / 2 \<le> denom_term [[1, 2], [3, 4]] ! i ! j"
    by blast+
  have c: "[[1, 2], [3, 4::real]] ! 1 ! 0 / 2 \<le> denom_term [[1, 2], [3, 4]] ! 1 ! 0"
    by (rule b[rule_format]) simp_all
  from a have a': "list_all (list_all (\<lambda>x. 0 \<le> x)) (calculate_oac [[1, 2], [3, 4]] 6)"
    by (simp add: list_all_iff)
  from n have n': "list_all (list_all (\<lambda>x. 0 \<le> x)) [[1, 2], [3, 4::real]]"
    by simp
  from r n' h a' c show ?thesis by blast
qed

subsection \<open>Speckle contrast: cropping and padding\<close>

lemma slice_border_length:
  "0 < b \<Longrightarrow> length (slice_border b xs) = length xs - 2 * b"
  by (simp add: slice_border_def)

lemma slice_border_nth:
  "0 < b \<Longrightarrow> k < length xs - 2 * b \<Longrightarrow> slice_border b xs ! k = xs ! (b + k)"
  by (simp add: slice_border_def)

lemma pad_edge_length: "length (pad_edge b xs) = length xs + 2 * b"
  by (simp add: pad_edge_def)

lemma pad_edge_nth:
  assumes "xs \<noteq> []" "i < length xs + 2 * b"
  shows "pad_edge b xs ! i = xs ! (min (max i b) (b + length xs - 1) - b)"
proof -
  have len: "0 < length xs" using assms(1) by simp
  consider "i < b" | "b \<le> i" "i < b + length xs" | "b + length xs \<le> i" by linarith
  then show ?thesis
  proof cases
    case 1
    then show ?thesis using len by (simp add: pad_edge_def nth_append hd_conv_nth[OF assms(1)] max_def)
  next
    case 2
    then have "min (max i b) (b + length xs - 1) - b = i - b" by (simp add: max_def min_def)
    moreover have "i - b < length xs" using 2 by linarith
    ultimately show ?thesis using 2 by (simp add: pad_edge_def nth_append)
  next
    case 3
    then have "min (max i b) (b + length xs - 1) - b = length xs - 1"
      using len by (simp add: max_def min_def)
    with 3 assms(2) show ?thesis
      by (simp add: pad_edge_def nth_append last_conv_nth[OF assms(1)])
  qed
qed

lemma pad_edge_map: "ys \<noteq> [] \<Longrightarrow> pad_edge b (map f ys) = map f (pad_edge b ys)"
  by (simp add: pad_edge_def hd_map last_map)

text \<open>The index that edge replication reads for output index \<open>i\<close> along an axis of length \<open>n\<close>.\<close>

lemma pad_slice_length:
  assumes "0 < b" "2 * b < length xs"
  shows "length (pad_edge b (slice_border b xs)) = length xs"
  using assms by (simp add: pad_edge_length slice_border_length)

lemma pad_slice_nth:
  assumes "0 < b" "2 * b < length xs" "i < length xs"
  shows "pad_edge b (slice_border b xs) ! i = xs ! min (max i b) (length xs - b - 1)"
proof -
  let ?s = "slice_border b xs"
  have l: "length ?s = length xs - 2 * b" using assms(1) by (rule slice_border_length)
  then have ne: "?s \<noteq> []" using assms(2) by auto
  have i: "i < length ?s + 2 * b" using l assms by simp
  let ?k = "min (max i b) (b + length ?s - 1) - b"
  have k: "?k < length xs - 2 * b" using l assms by (auto simp: min_def max_def)
  have "pad_edge b ?s ! i = ?s ! ?k" by (rule pad_edge_nth[OF ne i])
  also have "\<dots> = xs ! (b + ?k)" by (rule slice_border_nth[OF assms(1) k])
  also have "b + ?k = min (max i b) (length xs - b - 1)"
    using l assms by (auto simp: min_def max_def)
  finally show ?thesis .
qed

lemma crop_pad_rows:
  assumes "0 < b" "2 * b < length a"
  shows "map (pad_edge b) (pad_edge b (map (slice_border b) (slice_border b a))) =
         map (\<lambda>row. pad_edge b (slice_border b row)) (pad_edge b (slice_border b a))"
proof -
  have "length (slice_border b a) = length a - 2 * b" using assms(1) by (rule slice_border_length)
  then have "slice_border b a \<noteq> []" using assms(2) by auto
  then show ?thesis by (simp add: pad_edge_map comp_def)
qed

lemma crop_pad_image:
  assumes rect: "rectangular H W a" and b: "0 < b" "2 * b < H" "2 * b < W"
  shows "np_pad_edge (map (slice_border b) (slice_border b a)) b =
           Inr (map (\<lambda>row. pad_edge b (slice_border b row)) (pad_edge b (slice_border b a)))"
proof -
  have len: "length a = H" using rect by (simp add: rectangular_def)
  have l: "length (slice_border b a) = H - 2 * b" using b(1) len by (simp add: slice_border_length)
  then obtain r rs where c: "slice_border b a = r # rs" using b(2) by (cases "slice_border b a") auto
  have "r = slice_border b a ! 0" using c by simp
  also have "\<dots> = a ! (b + 0)" using b len by (intro slice_border_nth) auto
  finally have "length r = W" using rectangular_row[OF rect, of b] b by simp
  then have "ncols (map (slice_border b) (slice_border b a)) = W - 2 * b"
    using b(1) by (simp add: c ncols_def slice_border_length)
  then have "ncols (map (slice_border b) (slice_border b a)) \<noteq> 0" using b(3) by simp
  moreover have "map (slice_border b) (slice_border b a) \<noteq> []" using c by simp
  moreover have "map (pad_edge b) (pad_edge b (map (slice_border b) (slice_border b a))) =
         map (\<lambda>row. pad_edge b (slice_border b row)) (pad_edge b (slice_border b a))"
    using b(2) len by (intro crop_pad_rows[OF b(1)]) simp
  ultimately show ?thesis
    by (simp add: np_pad_edge_def)
qed

lemma crop_pad_image_nth:
  assumes rect: "rectangular H W a" and b: "0 < b" "2 * b < H" "2 * b < W"
    and ij: "i < H" "j < W"
  shows "map (\<lambda>row. pad_edge b (slice_border b row)) (pad_edge b (slice_border b a)) ! i ! j =
         a ! min (max i b) (H - b - 1) ! min (max j b) (W - b - 1)"
    and "length (map (\<lambda>row. pad_edge b (slice_border b row)) (pad_edge b (slice_border b a)) ! i) = W"
proof -
  have len: "length a = H" using rect by (simp add: rectangular_def)
  have lp: "length (pad_edge b (slice_border b a)) = H"
    using pad_slice_length[of b a] b len by simp
  have row: "pad_edge b (slice_border b a) ! i = a ! min (max i b) (H - b - 1)"
    using pad_slice_nth[of b a i] b ij len by simp
  have rl: "length (a ! min (max i b) (H - b - 1)) = W"
    using b ij by (intro rectangular_row[OF rect]) (auto simp: min_def)
  let ?ci = "min (max i b) (H - b - 1)"
  have ni: "i < length (pad_edge b (slice_border b a))" using lp ij(1) by simp
  have mrow: "map (\<lambda>row. pad_edge b (slice_border b row)) (pad_edge b (slice_border b a)) ! i =
        pad_edge b (slice_border b (a ! ?ci))"
    unfolding nth_map[OF ni] row ..
  have bl: "2 * b < length (a ! ?ci)" "j < length (a ! ?ci)" unfolding rl using b(3) ij(2) by simp_all
  show "map (\<lambda>row. pad_edge b (slice_border b row)) (pad_edge b (slice_border b a)) ! i ! j =
         a ! min (max i b) (H - b - 1) ! min (max j b) (W - b - 1)"
    unfolding mrow using pad_slice_nth[OF b(1) bl] unfolding rl .
  show "length (map (\<lambda>row. pad_edge b (slice_border b row)) (pad_edge b (slice_border b a)) ! i) = W"
    unfolding mrow using pad_slice_length[OF b(1) bl(1)] unfolding rl .
qed

subsection \<open>Speckle contrast: shapes of the intermediate maps\<close>

lemma reflect_index_less: "0 < n \<Longrightarrow> reflect_index k n < n"
proof -
  assume n: "0 < n"
  have "k mod (2 * int n) < 2 * int n" using n by (intro pos_mod_bound) simp
  moreover have "0 \<le> k mod (2 * int n)" using n by (intro pos_mod_sign) simp
  ultimately have "nat (k mod (2 * int n)) < 2 * n" by linarith
  then show ?thesis unfolding reflect_index_def Let_def by auto
qed

lemma window_less: "0 < n \<Longrightarrow> r \<in> set (window s n i) \<Longrightarrow> r < n"
  by (auto simp: window_def reflect_index_less)

lemma ncols_rectangular: "rectangular H W img \<Longrightarrow> 0 < H \<Longrightarrow> ncols img = W"
  by (cases img) (auto simp: rectangular_def ncols_def)

lemma rectangularI:
  "length img = H \<Longrightarrow> (\<And>i. i < H \<Longrightarrow> length (img ! i) = W) \<Longrightarrow> rectangular H W img"
  by (auto simp: rectangular_def list_all_length)

lemma rectangular_length: "rectangular H W img \<Longrightarrow> length img = H"
  by (simp add: rectangular_def)

lemma rectangular_map_map: "rectangular H W img \<Longrightarrow> rectangular H W (map (map f) img)"
  by (auto simp: rectangular_def list_all_length)

lemma rectangular_axis0:
  assumes "rectangular H W img"
  shows "rectangular H W (uniform_filter_axis0 s img)"
proof (rule rectangularI)
  show "length (uniform_filter_axis0 s img) = H"
    using assms by (simp add: uniform_filter_axis0_def rectangular_def)
  fix i assume "i < H"
  then show "length (uniform_filter_axis0 s img ! i) = W"
    using assms ncols_rectangular[OF assms]
    by (simp add: uniform_filter_axis0_def rectangular_def)
qed

lemma rectangular_axis1:
  assumes "rectangular H W img"
  shows "rectangular H W (uniform_filter_axis1 s img)"
proof (rule rectangularI)
  show "length (uniform_filter_axis1 s img) = H"
    using assms by (simp add: uniform_filter_axis1_def rectangular_def)
  fix i assume "i < H"
  then show "length (uniform_filter_axis1 s img ! i) = W"
    using assms rectangular_row[OF assms]
    by (simp add: uniform_filter_axis1_def rectangular_def)
qed

lemma rectangular_uniform_filter:
  "rectangular H W img \<Longrightarrow> rectangular H W (uniform_filter img s)"
  by (simp add: uniform_filter_def rectangular_axis0 rectangular_axis1)

lemma rectangular_mean_val: "rectangular H W d \<Longrightarrow> rectangular H W (mean_val d w)"
  by (simp add: mean_val_def rectangular_uniform_filter)

lemma rectangular_mean_sq_val: "rectangular H W d \<Longrightarrow> rectangular H W (mean_sq_val d w)"
  by (simp add: mean_sq_val_def rectangular_uniform_filter rectangular_map_map)

lemma map2_map2_nth:
  assumes "rectangular H W A" "rectangular H W B" "i < H" "j < W"
  shows "map2 (map2 f) A B ! i ! j = f (A ! i ! j) (B ! i ! j)"
    and "length (map2 (map2 f) A B ! i) = W"
  using assms rectangular_row[OF assms(1,3)] rectangular_row[OF assms(2,3)]
  by (simp_all add: rectangular_def)

lemma rectangular_map2_map2:
  assumes "rectangular H W A" "rectangular H W B"
  shows "rectangular H W (map2 (map2 f) A B)"
proof (rule rectangularI)
  show "length (map2 (map2 f) A B) = H" using assms by (simp add: rectangular_def)
  fix i assume i: "i < H"
  show "length (map2 (map2 f) A B ! i) = W"
    using rectangular_row[OF assms(1) i] rectangular_row[OF assms(2) i] assms i
    by (simp add: rectangular_def)
qed

lemma rectangular_std_val:
  assumes "rectangular H W d"
  shows "rectangular H W (std_val d w)"
  unfolding std_val_def Let_def
  by (intro rectangular_map_map rectangular_map2_map2
      rectangular_mean_val[OF assms] rectangular_mean_sq_val[OF assms])

lemma std_val_nth:
  assumes "rectangular H W d" "i < H" "j < W"
  shows "std_val d w ! i ! j =
     sqrt (if mean_sq_val d w ! i ! j - (mean_val d w ! i ! j) ^ 2 < 0 then 0
           else mean_sq_val d w ! i ! j - (mean_val d w ! i ! j) ^ 2)"
proof -
  let ?V = "map2 (map2 (\<lambda>q m. q - m ^ 2)) (mean_sq_val d w) (mean_val d w)"
  note r = rectangular_mean_sq_val[OF assms(1), of w] rectangular_mean_val[OF assms(1), of w]
  have v: "?V ! i ! j = mean_sq_val d w ! i ! j - (mean_val d w ! i ! j) ^ 2"
    by (rule map2_map2_nth(1)[OF r assms(2,3)])
  have l: "length (?V ! i) = W"
    by (rule map2_map2_nth(2)[OF r assms(2,3)])
  have lv: "length ?V = H" using r by (simp add: rectangular_def)
  show ?thesis
    unfolding std_val_def Let_def using v l lv assms(2,3) by simp
qed

lemma rectangular_sc_map:
  assumes "rectangular H W d"
  shows "rectangular H W (sc_map d w)"
  unfolding sc_map_def
  by (intro rectangular_map2_map2 rectangular_std_val[OF assms] rectangular_mean_val[OF assms])

lemma sc_map_nth:
  assumes "rectangular H W d" "i < H" "j < W"
  shows "sc_map d w ! i ! j = std_val d w ! i ! j / (mean_val d w ! i ! j + 1 / 10 ^ 10)"
  unfolding sc_map_def
  by (rule map2_map2_nth(1)[OF rectangular_std_val[OF assms(1)] rectangular_mean_val[OF assms(1)]
        assms(2,3)])

subsection \<open>Speckle contrast: scaling the input\<close>

lemma sum_list_scale:
  fixes f g :: "'a \<Rightarrow> real"
  assumes "\<And>x. x \<in> set xs \<Longrightarrow> g x = c * f x"
  shows "sum_list (map g xs) = c * sum_list (map f xs)"
proof -
  have "map g xs = map (\<lambda>x. c * f x) xs" using assms by (intro map_cong) auto
  then have "sum_list (map g xs) = sum_list (map (\<lambda>x. c * f x) xs)" by (rule arg_cong)
  also have "\<dots> = c * sum_list (map f xs)" by (rule sum_list_const_mult)
  finally show ?thesis .
qed

lemma scale_nth:
  "rectangular H W img \<Longrightarrow> i < H \<Longrightarrow> j < W \<Longrightarrow> scale c img ! i ! j = c * img ! i ! j"
  using rectangular_row[of H W img i] by (simp add: scale_def rectangular_def)

lemma rectangular_scale: "rectangular H W img \<Longrightarrow> rectangular H W (scale c img)"
  unfolding scale_def by (rule rectangular_map_map)

lemma axis0_nth:
  assumes "rectangular H W img" "i < H" "j < W"
  shows "uniform_filter_axis0 s img ! i ! j = (\<Sum>r\<leftarrow>window s H i. img ! r ! j) / real s"
  using assms ncols_rectangular[OF assms(1)]
  by (simp add: uniform_filter_axis0_def rectangular_def)

lemma axis1_nth:
  assumes "rectangular H W img" "i < H" "j < W"
  shows "uniform_filter_axis1 s img ! i ! j = (\<Sum>c\<leftarrow>window s W j. img ! i ! c) / real s"
  using assms rectangular_row[OF assms(1,2)]
  by (simp add: uniform_filter_axis1_def rectangular_def)

lemma axis0_scale_nth:
  assumes "rectangular H W img" "i < H" "j < W"
  shows "uniform_filter_axis0 s (scale c img) ! i ! j = c * uniform_filter_axis0 s img ! i ! j"
proof -
  have "(\<Sum>r\<leftarrow>window s H i. scale c img ! r ! j) = c * (\<Sum>r\<leftarrow>window s H i. img ! r ! j)"
  proof (rule sum_list_scale)
    fix r assume r: "r \<in> set (window s H i)"
    have "0 < H" using assms(2) by simp
    then have "r < H" using r by (rule window_less)
    then show "scale c img ! r ! j = c * img ! r ! j" using assms(1,3) by (simp add: scale_nth)
  qed
  then show ?thesis
    by (simp add: axis0_nth[OF rectangular_scale[OF assms(1)] assms(2,3)] axis0_nth[OF assms])
qed

lemma uniform_filter_scale_nth:
  assumes "rectangular H W img" "i < H" "j < W"
  shows "uniform_filter (scale c img) s ! i ! j = c * uniform_filter img s ! i ! j"
proof (cases "s > 1")
  case False
  then show ?thesis using assms by (simp add: uniform_filter_def scale_nth)
next
  case True
  let ?A = "uniform_filter_axis0 s img"
  let ?B = "uniform_filter_axis0 s (scale c img)"
  have rA: "rectangular H W ?A" using assms(1) by (rule rectangular_axis0)
  have rB: "rectangular H W ?B" using rectangular_scale[OF assms(1)] by (rule rectangular_axis0)
  have "(\<Sum>k\<leftarrow>window s W j. ?B ! i ! k) = c * (\<Sum>k\<leftarrow>window s W j. ?A ! i ! k)"
  proof (rule sum_list_scale)
    fix k assume k: "k \<in> set (window s W j)"
    have "0 < W" using assms(3) by simp
    then have "k < W" using k by (rule window_less)
    then show "?B ! i ! k = c * ?A ! i ! k" using assms(1,2) by (simp add: axis0_scale_nth)
  qed
  then show ?thesis
    using True by (simp add: uniform_filter_def axis1_nth[OF rA assms(2,3)] axis1_nth[OF rB assms(2,3)])
qed

lemma mean_val_scale_nth:
  assumes "rectangular H W d" "i < H" "j < W"
  shows "mean_val (scale c d) w ! i ! j = c * mean_val d w ! i ! j"
  unfolding mean_val_def using assms by (rule uniform_filter_scale_nth)

lemma mean_sq_val_scale_nth:
  assumes "rectangular H W d" "i < H" "j < W"
  shows "mean_sq_val (scale c d) w ! i ! j = c ^ 2 * mean_sq_val d w ! i ! j"
proof -
  have "map (map (\<lambda>x. x ^ 2)) (scale c d) = scale (c ^ 2) (map (map (\<lambda>x. x ^ 2)) d)"
    by (simp add: scale_def power_mult_distrib)
  then show ?thesis
    unfolding mean_sq_val_def
    using uniform_filter_scale_nth[OF rectangular_map_map[OF assms(1)] assms(2,3)] by simp
qed

lemma clamp_scale:
  fixes k v :: real
  assumes "0 \<le> k"
  shows "(if k * v < 0 then 0 else k * v) = k * (if v < 0 then 0 else v)"
proof (cases "v < 0")
  case True
  then have "k * v \<le> 0" using assms by (simp add: mult_nonneg_nonpos)
  then show ?thesis using True by (cases "k * v < 0") simp_all
next
  case False
  then have "0 \<le> k * v" using assms by simp
  then show ?thesis using False by (simp add: not_less)
qed

lemma std_val_scale_nth:
  assumes "rectangular H W d" "i < H" "j < W" "0 \<le> c"
  shows "std_val (scale c d) w ! i ! j = c * std_val d w ! i ! j"
proof -
  let ?v = "mean_sq_val d w ! i ! j - (mean_val d w ! i ! j) ^ 2"
  have v: "mean_sq_val (scale c d) w ! i ! j - (mean_val (scale c d) w ! i ! j) ^ 2 = c ^ 2 * ?v"
    by (simp add: mean_sq_val_scale_nth[OF assms(1-3)] mean_val_scale_nth[OF assms(1-3)]
        power_mult_distrib right_diff_distrib)
  have clamp: "(if c ^ 2 * ?v < 0 then 0 else c ^ 2 * ?v) = c ^ 2 * (if ?v < 0 then 0 else ?v)"
    by (rule clamp_scale) simp
  have "std_val (scale c d) w ! i ! j = sqrt (c ^ 2 * (if ?v < 0 then 0 else ?v))"
    unfolding std_val_nth[OF rectangular_scale[OF assms(1)] assms(2,3)] v clamp ..
  also have "\<dots> = c * sqrt (if ?v < 0 then 0 else ?v)"
    using assms(4) by (simp add: real_sqrt_mult)
  finally show ?thesis unfolding std_val_nth[OF assms(1-3)] .
qed

lemma sc_map_scale_nth:
  assumes "rectangular H W d" "i < H" "j < W" "0 < c"
  shows "sc_map (scale c d) w ! i ! j =
     std_val d w ! i ! j / (mean_val d w ! i ! j + (1 / 10 ^ 10) / c)"
proof -
  have "sc_map (scale c d) w ! i ! j =
      (c * std_val d w ! i ! j) / (c * mean_val d w ! i ! j + 1 / 10 ^ 10)"
    using assms(4)
    by (simp add: sc_map_nth[OF rectangular_scale[OF assms(1)] assms(2,3)]
        std_val_scale_nth[OF assms(1-3)] mean_val_scale_nth[OF assms(1-3)])
  also have "c * mean_val d w ! i ! j + 1 / 10 ^ 10 = c * (mean_val d w ! i ! j + (1 / 10 ^ 10) / c)"
    using assms(4) by (simp add: field_simps)
  also have "(c * std_val d w ! i ! j) / (c * (mean_val d w ! i ! j + (1 / 10 ^ 10) / c)) =
      std_val d w ! i ! j / (mean_val d w ! i ! j + (1 / 10 ^ 10) / c)"
    using assms(4) by simp
  finally show ?thesis .
qed

subsection \<open>Speckle contrast: the returned map\<close>

lemma speckle_map_padded:
  assumes "rectangular H W data" "0 < w div 2" "2 * (w div 2) < H" "2 * (w div 2) < W"
  shows "calculate_speckle_contrast_map data w =
     Inr (map (\<lambda>row. pad_edge (w div 2) (slice_border (w div 2) row))
            (pad_edge (w div 2) (slice_border (w div 2) (sc_map data w))))"
  unfolding calculate_speckle_contrast_map_def Let_def
  by (rule crop_pad_image[OF rectangular_sc_map[OF assms(1)] assms(2-4)])

lemma speckle_map_small_image:
  assumes "rectangular H W data" "0 < w div 2" "H \<le> 2 * (w div 2) \<or> W \<le> 2 * (w div 2)"
  shows "calculate_speckle_contrast_map data w = Inl ValueError"
proof -
  let ?b = "w div 2"
  let ?s = "sc_map data w"
  have r: "rectangular H W ?s" using assms(1) by (rule rectangular_sc_map)
  have len: "length ?s = H" using r by (rule rectangular_length)
  show ?thesis
  proof (cases "H \<le> 2 * ?b")
    case True
    then have "slice_border ?b ?s = []" using len assms(2) by (simp add: slice_border_def)
    then show ?thesis
      using assms(2) by (simp add: calculate_speckle_contrast_map_def np_pad_edge_def)
  next
    case False
    then have W: "W \<le> 2 * ?b" using assms(3) by simp
    have l: "length (slice_border ?b ?s) = H - 2 * ?b" using assms(2) len by (simp add: slice_border_length)
    then obtain x xs where c: "slice_border ?b ?s = x # xs"
      using False by (cases "slice_border ?b ?s") auto
    have "x = slice_border ?b ?s ! 0" using c by simp
    also have "\<dots> = ?s ! (?b + 0)" using assms(2) False len by (intro slice_border_nth) auto
    finally have "length x = W" using rectangular_row[OF r, of ?b] False by simp
    then have "slice_border ?b x = []" using W assms(2) by (simp add: slice_border_def)
    then have "ncols (map (slice_border ?b) (slice_border ?b ?s)) = 0"
      by (simp add: c ncols_def)
    then show ?thesis
      using assms(2) by (simp add: calculate_speckle_contrast_map_def np_pad_edge_def)
  qed
qed

lemma speckle_map_window_1:
  assumes "w div 2 = 0"
  shows "calculate_speckle_contrast_map data w = Inr []"
  using assms by (simp add: calculate_speckle_contrast_map_def slice_border_def np_pad_edge_def)

lemma interior_index: "b \<le> i \<Longrightarrow> i < H - b \<Longrightarrow> min (max i b) (H - b - 1) = (i::nat)"
  by (auto simp: min_def max_def)

lemma sum_list_pos_map:
  fixes f :: "'a \<Rightarrow> real"
  assumes "xs \<noteq> []" "\<And>x. x \<in> set xs \<Longrightarrow> 0 < f x"
  shows "0 < sum_list (map f xs)"
  using assms
proof (induction xs)
  case Nil
  then show ?case by simp
next
  case (Cons a as)
  show ?case
  proof (cases "as = []")
    case True
    then show ?thesis using Cons.prems(2) by simp
  next
    case False
    have "0 < sum_list (map f as)" using False Cons.prems(2) by (intro Cons.IH) auto
    moreover have "0 < f a" using Cons.prems(2) by simp
    ultimately show ?thesis by simp
  qed
qed

lemma window_nonempty: "0 < s \<Longrightarrow> window s n i \<noteq> []"
  by (simp add: window_def)

lemma uniform_filter_pos:
  assumes rect: "rectangular H W img" and pos: "\<And>i j. i < H \<Longrightarrow> j < W \<Longrightarrow> 0 < img ! i ! j"
    and ij: "i < H" "j < W"
  shows "0 < uniform_filter img s ! i ! j"
proof (cases "s > 1")
  case False
  then show ?thesis using pos[OF ij] by (simp add: uniform_filter_def)
next
  case True
  let ?A = "uniform_filter_axis0 s img"
  have rA: "rectangular H W ?A" using rect by (rule rectangular_axis0)
  have s0: "0 < s" using True by simp
  have H0: "0 < H" and W0: "0 < W" using ij by simp_all
  have posA: "0 < ?A ! k ! l" if "k < H" "l < W" for k l
  proof -
    have "0 < (\<Sum>r\<leftarrow>window s H k. img ! r ! l)"
    proof (rule sum_list_pos_map[OF window_nonempty[OF s0]])
      fix r assume "r \<in> set (window s H k)"
      with H0 have "r < H" by (rule window_less)
      then show "0 < img ! r ! l" using that(2) by (rule pos)
    qed
    then show ?thesis using s0 by (simp add: axis0_nth[OF rect that])
  qed
  have "0 < (\<Sum>k\<leftarrow>window s W j. ?A ! i ! k)"
  proof (rule sum_list_pos_map[OF window_nonempty[OF s0]])
    fix k assume "k \<in> set (window s W j)"
    with W0 have "k < W" by (rule window_less)
    with ij(1) show "0 < ?A ! i ! k" by (rule posA)
  qed
  then show ?thesis
    using True s0 by (simp add: uniform_filter_def axis1_nth[OF rA ij])
qed

lemma std_val_nonneg:
  assumes "rectangular H W d" "i < H" "j < W"
  shows "0 \<le> std_val d w ! i ! j"
  unfolding std_val_nth[OF assms] by simp

lemma entries_pos:
  assumes "rectangular H W data" "\<forall>r\<in>set data. \<forall>x\<in>set r. 0 < x" "i < H" "j < W"
  shows "0 < data ! i ! j"
proof -
  have "data ! i \<in> set data" using assms(1,3) by (simp add: rectangular_def)
  moreover have "data ! i ! j \<in> set (data ! i)"
    using rectangular_row[OF assms(1,3)] assms(4) by simp
  ultimately show ?thesis using assms(2) by blast
qed

text \<open>
  Claim C8, as stated, fails on images that are not larger than the border on both
  sides: for a 20 by 30 image and the default window size 20 the cropped map has no
  row, and \<^verbatim>\<open>np.pad\<close> raises \<^verbatim>\<open>ValueError\<close>.
\<close>

theorem speckle_map_raises_on_small_image:
  "rectangular 20 30 (replicate 20 (replicate 30 1))
   \<and> calculate_speckle_contrast_map (replicate 20 (replicate 30 1)) 20 = Inl ValueError"
proof -
  have r: "rectangular 20 30 (replicate 20 (replicate 30 1))"
    by (simp add: rectangular_def list_all_length)
  have "calculate_speckle_contrast_map (replicate 20 (replicate 30 1)) 20 = Inl ValueError"
    by (rule speckle_map_small_image[OF r]) simp_all
  with r show ?thesis by simp
qed

text \<open>
  Claim C8, amended. For every 2-D input image whose height and width both exceed
  twice the border \<open>w div 2\<close>, with a window size \<open>w\<close> of at least 2, the speckle-contrast
  estimator returns a map with the same height and width as the input: inside the
  border band the map has the values of the uncropped contrast map, and in the band it
  repeats the value of the nearest pixel inside (edge replication of the cropped map).
\<close>

theorem speckle_map_same_shape:
  assumes "rectangular H W data" "2 \<le> w" "2 * (w div 2) < H" "2 * (w div 2) < W"
  shows "\<exists>m. calculate_speckle_contrast_map data w = Inr m
     \<and> rectangular H W m
     \<and> (\<forall>i<H. \<forall>j<W.
           m ! i ! j = sc_map data w ! min (max i (w div 2)) (H - w div 2 - 1)
                                     ! min (max j (w div 2)) (W - w div 2 - 1))
     \<and> (\<forall>i j. w div 2 \<le> i \<and> i < H - w div 2 \<and> w div 2 \<le> j \<and> j < W - w div 2 \<longrightarrow>
           m ! i ! j = sc_map data w ! i ! j)"
proof -
  let ?b = "w div 2"
  let ?m = "map (\<lambda>row. pad_edge ?b (slice_border ?b row)) (pad_edge ?b (slice_border ?b (sc_map data w)))"
  have b: "0 < ?b" using assms(2) by simp
  have r: "rectangular H W (sc_map data w)" using assms(1) by (rule rectangular_sc_map)
  have res: "calculate_speckle_contrast_map data w = Inr ?m"
    by (rule speckle_map_padded[OF assms(1) b assms(3,4)])
  have len: "length ?m = H"
    using pad_slice_length[of ?b "sc_map data w"] b assms(3) rectangular_length[OF r] by simp
  have px: "?m ! i ! j = sc_map data w ! min (max i ?b) (H - ?b - 1) ! min (max j ?b) (W - ?b - 1)"
    and rl: "length (?m ! i) = W" if "i < H" "j < W" for i j
    using crop_pad_image_nth[OF r b assms(3,4) that] by simp_all
  have W0: "0 < W" using assms(4) by simp
  have shape: "rectangular H W ?m"
    using len rl[OF _ W0] by (intro rectangularI) auto
  have inner: "?m ! i ! j = sc_map data w ! i ! j"
    if "?b \<le> i \<and> i < H - ?b \<and> ?b \<le> j \<and> j < W - ?b" for i j
  proof -
    have ij: "i < H" "j < W" using that by auto
    have ii: "min (max i ?b) (H - ?b - 1) = i" using that by (intro interior_index) auto
    have jj: "min (max j ?b) (W - ?b - 1) = j" using that by (intro interior_index) auto
    show ?thesis unfolding px[OF ij] ii jj ..
  qed
  from res shape px inner show ?thesis by blast
qed

theorem speckle_map_same_shape_witness:
  "rectangular 3 3 [[1, 1, 1], [3, 3, 3], [1, 1, 1]]
   \<and> (case calculate_speckle_contrast_map [[1, 1, 1], [3, 3, 3], [1, 1, 1]] 2 of
        Inl e \<Rightarrow> False
      | Inr m \<Rightarrow> rectangular 3 3 m \<and> m ! 0 ! 2 = sc_map [[1, 1, 1], [3, 3, 3], [1, 1, 1]] 2 ! 1 ! 1)"
proof -
  let ?d = "[[1, 1, 1], [3, 3, 3], [1, 1, 1 :: real]]"
  have r: "rectangular 3 3 ?d" by (simp add: rectangular_def)
  from speckle_map_same_shape[OF r, of 2]
  obtain m where m: "calculate_speckle_contrast_map ?d 2 = Inr m" "rectangular 3 3 m"
    "\<forall>i<3. \<forall>j<3. m ! i ! j = sc_map ?d 2 ! min (max i (2 div 2)) (3 - 2 div 2 - 1)
                                     ! min (max j (2 div 2)) (3 - 2 div 2 - 1)"
    by auto
  have "m ! 0 ! 2 = sc_map ?d 2 ! min (max 0 (2 div 2)) (3 - 2 div 2 - 1)
                                     ! min (max 2 (2 div 2)) (3 - 2 div 2 - 1)"
    by (rule m(3)[rule_format]) simp_all
  then have "m ! 0 ! 2 = sc_map ?d 2 ! 1 ! 1" by simp
  with r m(1,2) show ?thesis by simp
qed

text \<open>
  Claim C7, as stated, fails because of the guard \<open>1e-10\<close> in the denominator. For the
  3 by 3 image with the rows \<open>1 1 1\<close>, \<open>3 3 3\<close>, \<open>1 1 1\<close> and the window size 2, the local
  mean at the interior pixel is 2 and the local deviation 1; the map of the image has
  the value \<open>1 / (2 + 1e-10)\<close> there, the map of twice the image \<open>2 / (4 + 1e-10)\<close>.
\<close>

theorem speckle_contrast_not_scale_invariant:
  "(case (calculate_speckle_contrast_map [[1, 1, 1], [3, 3, 3], [1, 1, 1]] 2,
          calculate_speckle_contrast_map (scale 2 [[1, 1, 1], [3, 3, 3], [1, 1, 1]]) 2) of
      (Inr m, Inr m') \<Rightarrow>
         m ! 1 ! 1 = 1 / (2 + 1 / 10 ^ 10) \<and> m' ! 1 ! 1 = 2 / (4 + 1 / 10 ^ 10)
         \<and> m' ! 1 ! 1 \<noteq> m ! 1 ! 1
    | _ \<Rightarrow> False)"
proof -
  let ?d = "[[1, 1, 1], [3, 3, 3], [1, 1, 1 :: real]]"
  let ?e = "scale 2 ?d"
  let ?pad = "\<lambda>a. map (\<lambda>row. pad_edge (2 div 2) (slice_border (2 div 2) row))
                    (pad_edge (2 div 2) (slice_border (2 div 2) a))"
  have r: "rectangular 3 3 ?d" by (simp add: rectangular_def)
  have r': "rectangular 3 3 ?e" using r by (rule rectangular_scale)
  have m: "calculate_speckle_contrast_map ?d 2 = Inr (?pad (sc_map ?d 2))"
    by (rule speckle_map_padded[OF r]) simp_all
  have m': "calculate_speckle_contrast_map ?e 2 = Inr (?pad (sc_map ?e 2))"
    by (rule speckle_map_padded[OF r']) simp_all
  have p: "?pad (sc_map ?d 2) ! 1 ! 1 = sc_map ?d 2 ! 1 ! 1"
    using crop_pad_image_nth(1)[OF rectangular_sc_map[OF r, of 2], of "2 div 2" 1 1] by simp
  have p': "?pad (sc_map ?e 2) ! 1 ! 1 = sc_map ?e 2 ! 1 ! 1"
    using crop_pad_image_nth(1)[OF rectangular_sc_map[OF r', of 2], of "2 div 2" 1 1] by simp
  have mean: "mean_val ?d 2 ! 1 ! 1 = 2"
    by (simp add: mean_val_def uniform_filter_def uniform_filter_axis0_def uniform_filter_axis1_def
        ncols_def window_def reflect_index_def Let_def numeral_2_eq_2 numeral_3_eq_3)
  have msq: "mean_sq_val ?d 2 ! 1 ! 1 = 5"
    by (simp add: mean_sq_val_def uniform_filter_def uniform_filter_axis0_def uniform_filter_axis1_def
        ncols_def window_def reflect_index_def Let_def numeral_2_eq_2 numeral_3_eq_3)
  have std: "std_val ?d 2 ! 1 ! 1 = 1"
    using std_val_nth[OF r, of 1 1 2] mean msq by simp
  have v: "sc_map ?d 2 ! 1 ! 1 = 1 / (2 + 1 / 10 ^ 10)"
    using sc_map_nth[OF r, of 1 1 2] std mean by simp
  have std': "std_val ?e 2 ! 1 ! 1 = 2"
    using std_val_scale_nth[OF r, of 1 1 2 2] std by simp
  have mean': "mean_val ?e 2 ! 1 ! 1 = 4"
    using mean_val_scale_nth[OF r, of 1 1 2 2] mean by simp
  have v': "sc_map ?e 2 ! 1 ! 1 = 2 / (4 + 1 / 10 ^ 10)"
    using sc_map_nth[OF r', of 1 1 2] std' mean' by simp
  have ne: "(2 :: real) / (4 + 1 / 10 ^ 10) \<noteq> 1 / (2 + 1 / 10 ^ 10)" by simp
  show ?thesis unfolding m m' by (simp only: prod.case sum.case p p' v v' ne) simp
qed

text \<open>
  Claim C7, amended. For every 2-D image with positive values, every positive constant
  \<open>c\<close>, and a window size \<open>w \<ge> 2\<close> whose border \<open>w div 2\<close> fits twice into both dimensions,
  the interior values of the speckle-contrast map of \<open>c\<close> times the image are those of
  the map of the image itself with the guard \<open>1e-10\<close> replaced by \<open>1e-10 / c\<close>: with the
  local mean \<open>\<mu> > 0\<close> and the local deviation \<open>\<sigma>\<close> of the image, the one is
  \<open>\<sigma> / (\<mu> + 1e-10 / c)\<close> and the other \<open>\<sigma> / (\<mu> + 1e-10)\<close>. The arithmetic is that of
  the real numbers.
\<close>

theorem speckle_contrast_scaling:
  assumes "rectangular H W data" "\<forall>r\<in>set data. \<forall>x\<in>set r. 0 < x" "0 < c"
    and "2 \<le> w" "2 * (w div 2) < H" "2 * (w div 2) < W"
    and "w div 2 \<le> i" "i < H - w div 2" "w div 2 \<le> j" "j < W - w div 2"
  shows "\<exists>m m'. calculate_speckle_contrast_map data w = Inr m
     \<and> calculate_speckle_contrast_map (scale c data) w = Inr m'
     \<and> m ! i ! j = std_val data w ! i ! j / (mean_val data w ! i ! j + 1 / 10 ^ 10)
     \<and> m' ! i ! j = std_val data w ! i ! j / (mean_val data w ! i ! j + (1 / 10 ^ 10) / c)
     \<and> 0 < mean_val data w ! i ! j \<and> 0 \<le> std_val data w ! i ! j"
proof -
  let ?b = "w div 2"
  let ?pad = "\<lambda>a. map (\<lambda>row. pad_edge ?b (slice_border ?b row)) (pad_edge ?b (slice_border ?b a))"
  let ?s = "std_val data w ! i ! j"
  let ?mu = "mean_val data w ! i ! j"
  have b: "0 < ?b" using assms(4) by simp
  have ij: "i < H" "j < W" using assms(8,10) by simp_all
  have r': "rectangular H W (scale c data)" using assms(1) by (rule rectangular_scale)
  have m: "calculate_speckle_contrast_map data w = Inr (?pad (sc_map data w))"
    by (rule speckle_map_padded[OF assms(1) b assms(5,6)])
  have m': "calculate_speckle_contrast_map (scale c data) w = Inr (?pad (sc_map (scale c data) w))"
    by (rule speckle_map_padded[OF r' b assms(5,6)])
  have ii: "min (max i ?b) (H - ?b - 1) = i" using assms(7,8) by (rule interior_index)
  have jj: "min (max j ?b) (W - ?b - 1) = j" using assms(9,10) by (rule interior_index)
  have p: "?pad (sc_map data w) ! i ! j = sc_map data w ! i ! j"
    using crop_pad_image_nth(1)[OF rectangular_sc_map[OF assms(1)] b assms(5,6) ij]
    unfolding ii jj .
  have p': "?pad (sc_map (scale c data) w) ! i ! j = sc_map (scale c data) w ! i ! j"
    using crop_pad_image_nth(1)[OF rectangular_sc_map[OF r'] b assms(5,6) ij]
    unfolding ii jj .
  have v: "?pad (sc_map data w) ! i ! j = ?s / (?mu + 1 / 10 ^ 10)"
    unfolding p by (rule sc_map_nth[OF assms(1) ij])
  have v': "?pad (sc_map (scale c data) w) ! i ! j = ?s / (?mu + (1 / 10 ^ 10) / c)"
    unfolding p' by (rule sc_map_scale_nth[OF assms(1) ij assms(3)])
  have mu: "0 < ?mu"
    unfolding mean_val_def
    by (rule uniform_filter_pos[OF assms(1) entries_pos[OF assms(1,2)] ij])
  have s: "0 \<le> ?s" by (rule std_val_nonneg[OF assms(1) ij])
  from m m' v v' mu s show ?thesis by blast
qed

theorem speckle_contrast_scaling_witness:
  "(case (calculate_speckle_contrast_map [[1, 1, 1], [3, 3, 3], [1, 1, 1]] 2,
          calculate_speckle_contrast_map (scale 2 [[1, 1, 1], [3, 3, 3], [1, 1, 1]]) 2) of
      (Inr m, Inr m') \<Rightarrow>
         m' ! 1 ! 1 = std_val [[1, 1, 1], [3, 3, 3], [1, 1, 1]] 2 ! 1 ! 1
                       / (mean_val [[1, 1, 1], [3, 3, 3], [1, 1, 1]] 2 ! 1 ! 1 + (1 / 10 ^ 10) / 2)
    | _ \<Rightarrow> False)"
proof -
  let ?d = "[[1, 1, 1], [3, 3, 3], [1, 1, 1 :: real]]"
  have r: "rectangular 3 3 ?d" by (simp add: rectangular_def)
  have pos: "\<forall>r\<in>set ?d. \<forall>x\<in>set r. 0 < x" by simp
  from speckle_contrast_scaling[OF r pos, of 2 2 1 1]
  obtain m m' where "calculate_speckle_contrast_map ?d 2 = Inr m"
    "calculate_speckle_contrast_map (scale 2 ?d) 2 = Inr m'"
    "m' ! 1 ! 1 = std_val ?d 2 ! 1 ! 1 / (mean_val ?d 2 ! 1 ! 1 + (1 / 10 ^ 10) / 2)"
    by auto
  then show ?thesis by simp
qed

subsection \<open>Tiered significance\<close>

lemma interp_between:
  fixes a b g :: real
  assumes "a \<le> b" "0 \<le> g" "g \<le> 1"
  shows "a \<le> a + (b - a) * g" "a + (b - a) * g \<le> b"
proof -
  have "0 \<le> (b - a) * g" using assms by simp
  then show "a \<le> a + (b - a) * g" by simp
  have "(b - a) * g \<le> (b - a) * 1" using assms by (intro mult_left_mono) auto
  then show "a + (b - a) * g \<le> b" by simp
qed

lemma interp_mono:
  fixes arr :: "real list"
  assumes srt: "sorted arr" and n: "arr \<noteq> []"
    and t: "0 \<le> t1" "t1 \<le> t2" "t2 \<le> real (length arr) - 1"
  shows "arr ! nat \<lfloor>t1\<rfloor> + (arr ! min (nat \<lfloor>t1\<rfloor> + 1) (length arr - 1) - arr ! nat \<lfloor>t1\<rfloor>) * (t1 - real (nat \<lfloor>t1\<rfloor>))
       \<le> arr ! nat \<lfloor>t2\<rfloor> + (arr ! min (nat \<lfloor>t2\<rfloor> + 1) (length arr - 1) - arr ! nat \<lfloor>t2\<rfloor>) * (t2 - real (nat \<lfloor>t2\<rfloor>))"
    (is "?v1 \<le> ?v2")
proof -
  define p1 where "p1 = nat \<lfloor>t1\<rfloor>"
  define p2 where "p2 = nat \<lfloor>t2\<rfloor>"
  define N where "N = length arr"
  have Npos: "0 < N" using n by (simp add: N_def)
  have g1: "0 \<le> t1 - real p1" "t1 - real p1 \<le> 1"
    using t(1) unfolding p1_def by linarith+
  have g2: "0 \<le> t2 - real p2" "t2 - real p2 \<le> 1"
    using t(1,2) unfolding p2_def by linarith+
  have p12: "p1 \<le> p2" unfolding p1_def p2_def using t(2) by (simp add: floor_mono nat_mono)
  have p2N: "p2 \<le> N - 1"
  proof -
    have "\<lfloor>t2\<rfloor> \<le> int N - 1" using t(3) unfolding N_def by linarith
    then show ?thesis unfolding p2_def using Npos by linarith
  qed
  have nth_mono: "arr ! i \<le> arr ! j" if "i \<le> j" "j < N" for i j
    using srt that unfolding N_def by (simp add: sorted_nth_mono)
  let ?n1 = "min (p1 + 1) (N - 1)"
  let ?n2 = "min (p2 + 1) (N - 1)"
  have b1: "arr ! p1 \<le> arr ! ?n1" using p12 p2N Npos by (intro nth_mono) auto
  have b2: "arr ! p2 \<le> arr ! ?n2" using p2N Npos by (intro nth_mono) auto
  show ?thesis
  proof (cases "p1 = p2")
    case True
    have "(arr ! ?n1 - arr ! p1) * (t1 - real p1) \<le> (arr ! ?n1 - arr ! p1) * (t2 - real p1)"
      using b1 t(2) by (intro mult_left_mono) auto
    then show ?thesis using True unfolding p1_def[symmetric] p2_def[symmetric] N_def[symmetric] by simp
  next
    case False
    then have lt: "p1 + 1 \<le> p2" using p12 by simp
    have "?v1 \<le> arr ! ?n1"
      unfolding p1_def[symmetric] N_def[symmetric] using interp_between(2)[OF b1 g1] .
    also have "arr ! ?n1 \<le> arr ! p2" using lt p2N Npos by (intro nth_mono) auto
    also have "arr ! p2 \<le> ?v2"
      unfolding p2_def[symmetric] N_def[symmetric] using interp_between(1)[OF b2 g2] .
    finally show ?thesis .
  qed
qed

lemma percentile_mono:
  assumes "v \<noteq> []" "0 \<le> q1" "q1 \<le> q2" "q2 \<le> 100"
  shows "percentile v q1 \<le> percentile v q2"
proof -
  have ne: "sort v \<noteq> []" using assms(1) by (metis length_sort length_0_conv)
  have len: "1 \<le> real (length (sort v))" using assms(1) by (cases v) auto
  have a: "0 \<le> (real (length (sort v)) - 1) * (q1 / 100)" using len assms by simp
  have b: "(real (length (sort v)) - 1) * (q1 / 100) \<le> (real (length (sort v)) - 1) * (q2 / 100)"
    using len assms by (intro mult_left_mono) auto
  have "(real (length (sort v)) - 1) * (q2 / 100) \<le> (real (length (sort v)) - 1) * 1"
    using len assms by (intro mult_left_mono) auto
  then have c: "(real (length (sort v)) - 1) * (q2 / 100) \<le> real (length (sort v)) - 1" by simp
  show ?thesis
    unfolding percentile_def Let_def
    by (rule interp_mono[OF sorted_sort ne a b c])
qed

lemma percentile_interval: "v \<noteq> [] \<Longrightarrow> percentile v 2.5 \<le> percentile v 97.5"
  by (rule percentile_mono) simp_all

lemma insort_score_Num: "insort_score (Num x) (map Num ys) = map Num (insort x ys)"
  by (induction ys) auto

lemma np_sort_Num: "np_sort (map Num w) = map Num (sort w)"
  by (induction w) (auto simp: np_sort_def sort_key_def insort_score_Num)

lemma lerp_Num: "lerp (Num a) (Num b) t = Num (a + (b - a) * t)"
  by (simp add: lerp_def score_sub_def Let_def algebra_simps)

lemma NaN_notin_Num: "NaN \<notin> set (map Num w)" "PInf \<notin> set (map Num w)" "NInf \<notin> set (map Num w)"
  by auto

lemma dropna_Num: "dropna (map Num w) = map Num w"
  by (induction w) auto

lemma np_percentile_cases:
  assumes "vals \<noteq> []" "NaN \<notin> set vals" "arr = np_sort vals" "n = length arr"
    and "v = (real n - 1) * (q / 100)"
  shows "real n - 1 \<le> v \<Longrightarrow> np_percentile vals q = lerp (arr ! (n - 1)) (arr ! (n - 1)) (v + 1)"
    and "\<not> real n - 1 \<le> v \<Longrightarrow>
         np_percentile vals q = lerp (arr ! nat \<lfloor>v\<rfloor>) (arr ! (nat \<lfloor>v\<rfloor> + 1)) (v - of_int \<lfloor>v\<rfloor>)"
  unfolding assms(5) assms(4) assms(3) np_percentile_def Let_def
  using assms(1,2) by simp_all

lemma np_percentile_Num:
  assumes "w \<noteq> []" "0 \<le> q" "q \<le> 100"
  shows "np_percentile (map Num w) q = Num (percentile w q)"
proof -
  define arr where "arr = sort w"
  define n where "n = length arr"
  define v where "v = (real n - 1) * (q / 100)"
  have n: "1 \<le> n" using assms(1) unfolding n_def arr_def by (cases w) auto
  have v0: "0 \<le> v" using n assms(2) unfolding v_def by simp
  have "v \<le> (real n - 1) * 1" unfolding v_def using n assms(3) by (intro mult_left_mono) auto
  then have v1: "v \<le> real n - 1" by simp
  have ne: "map Num w \<noteq> []" using assms(1) by simp
  have nn: "NaN \<notin> set (map Num w)" by auto
  have srt: "map Num arr = np_sort (map Num w)" unfolding arr_def by (simp add: np_sort_Num)
  have len: "n = length (map Num arr)" unfolding n_def by simp
  note cases = np_percentile_cases[OF ne nn srt len v_def]
  have pc: "percentile w q =
      arr ! nat \<lfloor>v\<rfloor> + (arr ! min (nat \<lfloor>v\<rfloor> + 1) (n - 1) - arr ! nat \<lfloor>v\<rfloor>) * (v - real (nat \<lfloor>v\<rfloor>))"
    unfolding percentile_def Let_def arr_def[symmetric] n_def[symmetric] v_def[symmetric] ..
  show ?thesis
  proof (cases "real n - 1 \<le> v")
    case True
    then have veq: "v = real (n - 1)" using v1 n by simp
    have p: "nat \<lfloor>v\<rfloor> = n - 1" unfolding veq by simp
    have i: "n - 1 < length arr" using n unfolding n_def by simp
    have "np_percentile (map Num w) q = lerp (Num (arr ! (n - 1))) (Num (arr ! (n - 1))) (v + 1)"
      unfolding cases(1)[OF True] using i by simp
    also have "\<dots> = Num (arr ! (n - 1))" by (simp add: lerp_Num)
    also have "arr ! (n - 1) = percentile w q" unfolding pc p by simp
    finally show ?thesis .
  next
    case False
    define p where "p = nat \<lfloor>v\<rfloor>"
    have "\<lfloor>v\<rfloor> < int n - 1" using False by linarith
    then have pn: "p + 1 < n" unfolding p_def using v0 by linarith
    have g: "v - of_int \<lfloor>v\<rfloor> = v - real p" unfolding p_def using v0 by simp
    have mn: "min (p + 1) (n - 1) = p + 1" using pn by simp
    have i: "p < length arr" "p + 1 < length arr" using pn unfolding n_def by simp_all
    have "np_percentile (map Num w) q = lerp (Num (arr ! p)) (Num (arr ! (p + 1))) (v - real p)"
      unfolding cases(2)[OF False] p_def[symmetric] g using i by simp
    also have "\<dots> = Num (arr ! p + (arr ! (p + 1) - arr ! p) * (v - real p))"
      by (rule lerp_Num)
    also have "arr ! p + (arr ! (p + 1) - arr ! p) * (v - real p) = percentile w q"
      unfolding pc p_def[symmetric] mn ..
    finally show ?thesis .
  qed
qed

lemma Min_Cons: "ys \<noteq> [] \<Longrightarrow> Min (set (x # ys)) = min x (Min (set ys))"
  by simp

lemma Max_Cons: "ys \<noteq> [] \<Longrightarrow> Max (set (x # ys)) = max x (Max (set ys))"
  by simp

lemma np_min_Num: "w \<noteq> [] \<Longrightarrow> np_min (map Num w) = Num (Min (set w))"
proof (induction w rule: induct_list012)
  case 1
  then show ?case by simp
next
  case (2 x)
  show ?case by simp
next
  case (3 x y zs)
  define m where "m = Min (set (y # zs))"
  have ih: "np_min (Num y # map Num zs) = Num m" using 3(2) unfolding m_def by simp
  have "np_min (map Num (x # y # zs)) = (if x < m then Num x else Num m)"
    by (simp only: list.map np_min.simps ih Let_def score_less.simps)
  also have "\<dots> = Num (min x m)" by (simp add: min_def)
  also have "min x m = Min (set (x # y # zs))" unfolding m_def by (rule Min_Cons[symmetric]) simp
  finally show ?case .
qed

lemma np_max_Num: "w \<noteq> [] \<Longrightarrow> np_max (map Num w) = Num (Max (set w))"
proof (induction w rule: induct_list012)
  case 1
  then show ?case by simp
next
  case (2 x)
  show ?case by simp
next
  case (3 x y zs)
  define m where "m = Max (set (y # zs))"
  have ih: "np_max (Num y # map Num zs) = Num m" using 3(2) unfolding m_def by simp
  have "np_max (map Num (x # y # zs)) = (if m < x then Num x else Num m)"
    by (simp only: list.map np_max.simps ih Let_def score_less.simps)
  also have "\<dots> = Num (max x m)" by (auto simp: max_def)
  also have "max x m = Max (set (x # y # zs))" unfolding m_def by (rule Max_Cons[symmetric]) simp
  finally show ?case .
qed

lemma np_sum_Num: "np_sum (map Num w) = Num (sum_list w)"
  by (induction w) (auto simp: np_sum_def)

lemma np_mean_Num: "np_mean (map Num w) = Num (mean w)"
  by (simp add: np_mean_def np_sum_Num mean_def)

lemma mean_nonneg: "(\<And>x. x \<in> set w \<Longrightarrow> 0 \<le> x) \<Longrightarrow> 0 \<le> mean w"
  by (simp add: mean_def sum_list_nonneg)

lemma np_std_Num: "np_std (map Num w) = Num (pstdev w)"
proof -
  let ?m = "mean w"
  have eq: "map (\<lambda>x. score_sq (score_sub x (Num ?m))) (map Num w) =
        map Num (map (\<lambda>x. (x - ?m) * (x - ?m)) w)"
    by (simp add: score_sub_def)
  have nonneg: "0 \<le> mean (map (\<lambda>x. (x - ?m) * (x - ?m)) w)"
    by (rule mean_nonneg) auto
  have "np_std (map Num w) =
        score_sqrt (np_mean (map (\<lambda>x. score_sq (score_sub x (Num ?m))) (map Num w)))"
    by (simp only: np_std_def np_mean_Num)
  also have "\<dots> = score_sqrt (Num (mean (map (\<lambda>x. (x - ?m) * (x - ?m)) w)))"
    by (simp only: eq np_mean_Num)
  also have "\<dots> = Num (pstdev w)"
    using nonneg by (simp add: pstdev_def)
  finally show ?thesis .
qed

lemma finite_scores:
  "NaN \<notin> set v \<Longrightarrow> PInf \<notin> set v \<Longrightarrow> NInf \<notin> set v \<Longrightarrow> \<exists>w. v = map Num w"
proof (induction v)
  case Nil
  then show ?case by simp
next
  case (Cons x xs)
  then obtain w where w: "xs = map Num w" by auto
  from Cons.prems obtain a where "x = Num a" by (cases x) auto
  with w have "x # xs = map Num (a # w)" by simp
  then show ?case by (rule exI)
qed

lemma Min_le_Max_list: "w \<noteq> [] \<Longrightarrow> Min (set w) \<le> Max (set w)"
  by simp

lemma tier_cases:
  fixes A B C :: bool
  assumes "s = (if A then [] else if B then ''(*)'' else if C then ''(***)'' else ''(**)'')"
  shows "s \<in> {[], ''(*)'', ''(**)'', ''(***)''}"
    and "s \<noteq> [] \<longleftrightarrow> \<not> A"
    and "s = ''(**)'' \<or> s = ''(***)'' \<longleftrightarrow> \<not> A \<and> \<not> B"
    and "s = ''(***)'' \<longleftrightarrow> \<not> A \<and> \<not> B \<and> C"
  using assms by auto

lemma star_label_if:
  "star_label l1 h1 l2 h2 min1 max1 std1 min2 max2 std2 =
     (if score_le (py_max l1 l2) (py_min h1 h2) then []
      else if score_le (py_max min1 min2) (py_min max1 max2) then ''(*)''
      else if score_less (score_add std1 std2)
                (if score_less max2 min1 then score_sub min1 max2 else score_sub min2 max1)
           then ''(***)''
      else ''(**)'')"
  unfolding star_label_def Let_def by (simp only: if_not_P if_P not_not split: if_split) blast

lemma star_label_Num:
  "star_label (Num l1) (Num h1) (Num l2) (Num h2) (Num min1) (Num max1) (Num std1)
      (Num min2) (Num max2) (Num std2) =
     (if max l1 l2 \<le> min h1 h2 then []
      else if max min1 min2 \<le> min max1 max2 then ''(*)''
      else if std1 + std2 < (if max2 < min1 then min1 - max2 else min2 - max1) then ''(***)''
      else ''(**)'')"
proof -
  have a: "score_le (py_max (Num a) (Num b)) (py_min (Num c) (Num d)) \<longleftrightarrow> max a b \<le> min c d"
    for a b c d
    unfolding py_max_def py_min_def max_def min_def by auto
  have g: "(if score_less (Num max2) (Num min1) then score_sub (Num min1) (Num max2)
            else score_sub (Num min2) (Num max1)) =
           Num (if max2 < min1 then min1 - max2 else min2 - max1)"
    by (simp add: score_sub_def)
  show ?thesis
    unfolding star_label_if a g by (simp only: score_add.simps score_less.simps)
qed

lemma nearest_edge_gap:
  fixes min1 max1 min2 max2 :: real
  assumes "min1 \<le> max1" "min2 \<le> max2" "min max1 max2 < max min1 min2"
  shows "(if max2 < min1 then min1 - max2 else min2 - max1) = max (min1 - max2) (min2 - max1)"
  using assms by (auto simp: max_def min_def split: if_splits)

lemma get_stats_and_rating_Some:
  assumes "df_intra metric = Some c1" "df_inter metric = Some c2"
    and "dropna c1 = v1" "dropna c2 = v2" "v1 \<noteq> []" "v2 \<noteq> []"
  shows "\<exists>r. get_stats_and_rating df_intra df_inter metric = Some r \<and>
     stars r = star_label (np_percentile v1 2.5) (np_percentile v1 97.5)
                 (np_percentile v2 2.5) (np_percentile v2 97.5)
                 (np_min v1) (np_max v1) (np_std v1) (np_min v2) (np_max v2) (np_std v2)"
  using assms by (simp add: get_stats_and_rating_def Let_def)

text \<open>
  Claim C2, as stated, fails when a value list holds an infinite value. For the
  columns \<open>[inf, inf]\<close> and \<open>[20, 25]\<close> both percentiles of the first list are NaN, the
  overlap test is false, and the label is \<open>''(**)''\<close>, although
  \<open>max low1 low2 > min high1 high2\<close> is false as well.
\<close>

theorem stars_without_interval_separation:
  "map_option stars
     (get_stats_and_rating [''PSNR'' \<mapsto> [PInf, PInf]] [''PSNR'' \<mapsto> [Num 20, Num 25]] ''PSNR'')
   = Some ''(**)''
   \<and> np_percentile [PInf, PInf] 2.5 = NaN \<and> np_percentile [PInf, PInf] 97.5 = NaN
   \<and> \<not> score_less (py_min (np_percentile [PInf, PInf] 97.5) (np_percentile [Num 20, Num 25] 97.5))
                   (py_max (np_percentile [PInf, PInf] 2.5) (np_percentile [Num 20, Num 25] 2.5))"
proof -
  have p: "np_percentile [PInf, PInf] 2.5 = NaN" "np_percentile [PInf, PInf] 97.5 = NaN"
    "np_percentile [Num 20, Num 25] 2.5 = Num 20.125"
    "np_percentile [Num 20, Num 25] 97.5 = Num 24.875"
    by (simp_all add: np_percentile_def np_sort_def lerp_def score_sub_def)
  have s: "np_std [PInf, PInf] = NaN"
    by (simp add: np_std_def np_mean_def np_sum_def score_sub_def)
  have "map_option stars
     (get_stats_and_rating [''PSNR'' \<mapsto> [PInf, PInf]] [''PSNR'' \<mapsto> [Num 20, Num 25]] ''PSNR'')
   = Some ''(**)''"
    by (simp add: get_stats_and_rating_def star_label_def py_max_def py_min_def score_sub_def
        np_percentile_def np_sort_def lerp_def np_std_def np_mean_def np_sum_def)
  then show ?thesis unfolding p by (simp add: py_max_def py_min_def)
qed

text \<open>
  Claim C2, amended. When both columns hold at least one entry that is not NaN, the
  classifier returns a verdict, and: the verdict is above None exactly when the overlap
  test \<open>max low1 low2 \<le> min high1 high2\<close> of the two percentile intervals is false; it is
  HighlySignificant or better exactly when in addition the overlap test of the two
  ranges \<open>[min, max]\<close> is false; it is RobustlySeparated exactly when in addition the gap
  the code computes exceeds the sum of the two standard deviations. The overlap test of
  the analysis script is the same comparison. For lists of finite values the first test
  is false exactly when \<open>max low1 low2 > min high1 high2\<close>, the second exactly when the
  ranges do not overlap, and the gap is the distance between the nearest range edges.
\<close>

theorem star_rating_tiers:
  assumes "df_intra metric = Some c1" "df_inter metric = Some c2"
    and "dropna c1 = v1" "dropna c2 = v2" "v1 \<noteq> []" "v2 \<noteq> []"
    and "l1 = np_percentile v1 2.5" "h1 = np_percentile v1 97.5"
    and "l2 = np_percentile v2 2.5" "h2 = np_percentile v2 97.5"
  shows "\<exists>r. get_stats_and_rating df_intra df_inter metric = Some r
     \<and> stars r \<in> {'''', ''(*)'', ''(**)'', ''(***)''}
     \<and> (stars r \<noteq> '''' \<longleftrightarrow> \<not> score_le (py_max l1 l2) (py_min h1 h2))
     \<and> (stars r = ''(**)'' \<or> stars r = ''(***)'' \<longleftrightarrow>
          \<not> score_le (py_max l1 l2) (py_min h1 h2)
          \<and> \<not> score_le (py_max (np_min v1) (np_min v2)) (py_min (np_max v1) (np_max v2)))
     \<and> (stars r = ''(***)'' \<longleftrightarrow>
          \<not> score_le (py_max l1 l2) (py_min h1 h2)
          \<and> \<not> score_le (py_max (np_min v1) (np_min v2)) (py_min (np_max v1) (np_max v2))
          \<and> score_less (score_add (np_std v1) (np_std v2))
               (if score_less (np_max v2) (np_min v1) then score_sub (np_min v1) (np_max v2)
                else score_sub (np_min v2) (np_max v1)))
     \<and> (check_interval_overlap l1 h1 l2 h2 \<longleftrightarrow> score_le (py_max l1 l2) (py_min h1 h2))
     \<and> (v1 = map Num w1 \<and> v2 = map Num w2 \<longrightarrow>
          (stars r \<noteq> '''' \<longleftrightarrow>
             max (percentile w1 2.5) (percentile w2 2.5) > min (percentile w1 97.5) (percentile w2 97.5))
          \<and> (stars r = ''(**)'' \<or> stars r = ''(***)'' \<longleftrightarrow>
             max (percentile w1 2.5) (percentile w2 2.5) > min (percentile w1 97.5) (percentile w2 97.5)
             \<and> max (Min (set w1)) (Min (set w2)) > min (Max (set w1)) (Max (set w2)))
          \<and> (stars r = ''(***)'' \<longleftrightarrow>
             max (percentile w1 2.5) (percentile w2 2.5) > min (percentile w1 97.5) (percentile w2 97.5)
             \<and> max (Min (set w1)) (Min (set w2)) > min (Max (set w1)) (Max (set w2))
             \<and> max (Min (set w1) - Max (set w2)) (Min (set w2) - Max (set w1))
                 > pstdev w1 + pstdev w2))"
proof -
  let ?s = "star_label l1 h1 l2 h2 (np_min v1) (np_max v1) (np_std v1)
              (np_min v2) (np_max v2) (np_std v2)"
  from get_stats_and_rating_Some[of df_intra metric c1 df_inter c2 v1 v2, OF assms(1-6)]
  obtain r where r: "get_stats_and_rating df_intra df_inter metric = Some r" "stars r = ?s"
    unfolding assms(7-10) by blast
  note tc = tier_cases[OF star_label_if[of l1 h1 l2 h2 "np_min v1" "np_max v1" "np_std v1"
        "np_min v2" "np_max v2" "np_std v2"]]
  have ov: "check_interval_overlap l1 h1 l2 h2 \<longleftrightarrow> score_le (py_max l1 l2) (py_min h1 h2)"
    by (simp add: check_interval_overlap_def)
  have fin: "(?s \<noteq> '''' \<longleftrightarrow>
             max (percentile w1 2.5) (percentile w2 2.5) > min (percentile w1 97.5) (percentile w2 97.5))
          \<and> (?s = ''(**)'' \<or> ?s = ''(***)'' \<longleftrightarrow>
             max (percentile w1 2.5) (percentile w2 2.5) > min (percentile w1 97.5) (percentile w2 97.5)
             \<and> max (Min (set w1)) (Min (set w2)) > min (Max (set w1)) (Max (set w2)))
          \<and> (?s = ''(***)'' \<longleftrightarrow>
             max (percentile w1 2.5) (percentile w2 2.5) > min (percentile w1 97.5) (percentile w2 97.5)
             \<and> max (Min (set w1)) (Min (set w2)) > min (Max (set w1)) (Max (set w2))
             \<and> max (Min (set w1) - Max (set w2)) (Min (set w2) - Max (set w1))
                 > pstdev w1 + pstdev w2)"
    if w: "v1 = map Num w1" "v2 = map Num w2"
  proof -
    have ne: "w1 \<noteq> []" "w2 \<noteq> []" using assms(5,6) w by auto
    have m1: "Min (set w1) \<le> Max (set w1)" and m2: "Min (set w2) \<le> Max (set w2)"
      using ne by (simp_all add: Min_le_Max_list)
    have s: "?s = star_label (Num (percentile w1 2.5)) (Num (percentile w1 97.5))
        (Num (percentile w2 2.5)) (Num (percentile w2 97.5))
        (Num (Min (set w1))) (Num (Max (set w1))) (Num (pstdev w1))
        (Num (Min (set w2))) (Num (Max (set w2))) (Num (pstdev w2))"
      unfolding assms(7-10) w
      by (simp add: np_percentile_Num[OF ne(1)] np_percentile_Num[OF ne(2)]
          np_min_Num[OF ne(1)] np_min_Num[OF ne(2)] np_max_Num[OF ne(1)] np_max_Num[OF ne(2)]
          np_std_Num)
    note tf = tier_cases[OF star_label_Num[of "percentile w1 2.5" "percentile w1 97.5"
          "percentile w2 2.5" "percentile w2 97.5" "Min (set w1)" "Max (set w1)" "pstdev w1"
          "Min (set w2)" "Max (set w2)" "pstdev w2"], folded s, unfolded not_le]
    have t1: "?s \<noteq> '''' \<longleftrightarrow>
             max (percentile w1 2.5) (percentile w2 2.5) > min (percentile w1 97.5) (percentile w2 97.5)"
      by (rule tf(2))
    have t2: "?s = ''(**)'' \<or> ?s = ''(***)'' \<longleftrightarrow>
             max (percentile w1 2.5) (percentile w2 2.5) > min (percentile w1 97.5) (percentile w2 97.5)
             \<and> max (Min (set w1)) (Min (set w2)) > min (Max (set w1)) (Max (set w2))"
      by (rule tf(3))
    have t3: "?s = ''(***)'' \<longleftrightarrow>
             max (percentile w1 2.5) (percentile w2 2.5) > min (percentile w1 97.5) (percentile w2 97.5)
             \<and> max (Min (set w1)) (Min (set w2)) > min (Max (set w1)) (Max (set w2))
             \<and> max (Min (set w1) - Max (set w2)) (Min (set w2) - Max (set w1))
                 > pstdev w1 + pstdev w2"
      using nearest_edge_gap[OF m1 m2] unfolding tf(4) by auto
    from t1 t2 t3 show ?thesis by blast
  qed
  have finI: "v1 = map Num w1 \<and> v2 = map Num w2 \<longrightarrow>
          (?s \<noteq> '''' \<longleftrightarrow>
             max (percentile w1 2.5) (percentile w2 2.5) > min (percentile w1 97.5) (percentile w2 97.5))
          \<and> (?s = ''(**)'' \<or> ?s = ''(***)'' \<longleftrightarrow>
             max (percentile w1 2.5) (percentile w2 2.5) > min (percentile w1 97.5) (percentile w2 97.5)
             \<and> max (Min (set w1)) (Min (set w2)) > min (Max (set w1)) (Max (set w2)))
          \<and> (?s = ''(***)'' \<longleftrightarrow>
             max (percentile w1 2.5) (percentile w2 2.5) > min (percentile w1 97.5) (percentile w2 97.5)
             \<and> max (Min (set w1)) (Min (set w2)) > min (Max (set w1)) (Max (set w2))
             \<and> max (Min (set w1) - Max (set w2)) (Min (set w2) - Max (set w1))
                 > pstdev w1 + pstdev w2)"
    using fin by blast
  show ?thesis
  proof (intro exI[of _ r] conjI)
    show "get_stats_and_rating df_intra df_inter metric = Some r" by (rule r(1))
    show "stars r \<in> {'''', ''(*)'', ''(**)'', ''(***)''}" unfolding r(2) by (rule tc(1))
    show "stars r \<noteq> '''' \<longleftrightarrow> \<not> score_le (py_max l1 l2) (py_min h1 h2)"
      unfolding r(2) by (rule tc(2))
    show "stars r = ''(**)'' \<or> stars r = ''(***)'' \<longleftrightarrow>
          \<not> score_le (py_max l1 l2) (py_min h1 h2)
          \<and> \<not> score_le (py_max (np_min v1) (np_min v2)) (py_min (np_max v1) (np_max v2))"
      unfolding r(2) by (rule tc(3))
    show "stars r = ''(***)'' \<longleftrightarrow>
          \<not> score_le (py_max l1 l2) (py_min h1 h2)
          \<and> \<not> score_le (py_max (np_min v1) (np_min v2)) (py_min (np_max v1) (np_max v2))
          \<and> score_less (score_add (np_std v1) (np_std v2))
               (if score_less (np_max v2) (np_min v1) then score_sub (np_min v1) (np_max v2)
                else score_sub (np_min v2) (np_max v1))"
      unfolding r(2) by (rule tc(4))
    show "check_interval_overlap l1 h1 l2 h2 \<longleftrightarrow> score_le (py_max l1 l2) (py_min h1 h2)"
      by (rule ov)
    show "v1 = map Num w1 \<and> v2 = map Num w2 \<longrightarrow>
          (stars r \<noteq> '''' \<longleftrightarrow>
             max (percentile w1 2.5) (percentile w2 2.5) > min (percentile w1 97.5) (percentile w2 97.5))
          \<and> (stars r = ''(**)'' \<or> stars r = ''(***)'' \<longleftrightarrow>
             max (percentile w1 2.5) (percentile w2 2.5) > min (percentile w1 97.5) (percentile w2 97.5)
             \<and> max (Min (set w1)) (Min (set w2)) > min (Max (set w1)) (Max (set w2)))
          \<and> (stars r = ''(***)'' \<longleftrightarrow>
             max (percentile w1 2.5) (percentile w2 2.5) > min (percentile w1 97.5) (percentile w2 97.5)
             \<and> max (Min (set w1)) (Min (set w2)) > min (Max (set w1)) (Max (set w2))
             \<and> max (Min (set w1) - Max (set w2)) (Min (set w2) - Max (set w1))
                 > pstdev w1 + pstdev w2)"
      unfolding r(2) by (rule finI)
  qed
qed

theorem star_rating_tiers_witness:
  "map_option stars
     (get_stats_and_rating [''SSIM'' \<mapsto> [Num 1, NaN, Num 2]] [''SSIM'' \<mapsto> [Num 9, Num 5]] ''SSIM'')
   = Some ''(***)''"
proof -
  have p: "percentile [1, 2] 2.5 = 1.025" "percentile [1, 2] 97.5 = 1.975"
    "percentile [9, 5] 2.5 = 5.1" "percentile [9, 5] 97.5 = 8.9"
    by (simp_all add: percentile_def Let_def)
  have st: "pstdev [1, 2] = 1 / 2" "pstdev [9, 5] = 2"
    by (simp_all add: pstdev_def mean_def real_sqrt_divide)
  from star_rating_tiers[of "[''SSIM'' \<mapsto> [Num 1, NaN, Num 2]]" "''SSIM''" "[Num 1, NaN, Num 2]"
      "[''SSIM'' \<mapsto> [Num 9, Num 5]]" "[Num 9, Num 5]" "[Num 1, Num 2]" "[Num 9, Num 5]"
      "np_percentile [Num 1, Num 2] 2.5" "np_percentile [Num 1, Num 2] 97.5"
      "np_percentile [Num 9, Num 5] 2.5" "np_percentile [Num 9, Num 5] 97.5" "[1, 2]" "[9, 5]"]
  obtain r where r:
    "get_stats_and_rating [''SSIM'' \<mapsto> [Num 1, NaN, Num 2]] [''SSIM'' \<mapsto> [Num 9, Num 5]] ''SSIM'' = Some r"
    "stars r = ''(***)'' \<longleftrightarrow>
       max (percentile [1, 2] 2.5) (percentile [9, 5] 2.5) > min (percentile [1, 2] 97.5) (percentile [9, 5] 97.5)
       \<and> max (Min (set [1, 2])) (Min (set [9, 5])) > min (Max (set [1, 2])) (Max (set [9, 5 :: real]))
       \<and> max (Min (set [1, 2]) - Max (set [9, 5])) (Min (set [9, 5]) - Max (set [1, 2]))
           > pstdev [1, 2] + pstdev [9, 5]"
    by auto
  have "stars r = ''(***)''" unfolding r(2) p st by simp
  then show ?thesis using r(1) by simp
qed

text \<open>
  Claim C9, as stated, fails when the value list holds an infinite value, such as the
  PSNR of two equal images: the list \<open>[inf, inf]\<close> compared against itself gets the label
  \<open>''(*)''\<close>, and in the neighbour-band analysis a bucket with the values \<open>[30, inf]\<close>
  compared against a baseline with the same values gets the diagnostic-power flag.
\<close>

theorem self_comparison_with_infinite_value:
  "map_option stars
     (get_stats_and_rating [''PSNR'' \<mapsto> [PInf, PInf]] [''PSNR'' \<mapsto> [PInf, PInf]] ''PSNR'')
   = Some ''(*)''
   \<and> diagnostic_power ''Intra_Meso_Amp'' (Some [Num 30, PInf]) ''Inter_B'' [Num 30, PInf] = Some True"
proof -
  have p: "np_percentile [PInf, PInf] 2.5 = NaN" "np_percentile [PInf, PInf] 97.5 = NaN"
    "np_percentile [Num 30, PInf] 2.5 = PInf" "np_percentile [Num 30, PInf] 97.5 = NaN"
    by (simp_all add: np_percentile_def np_sort_def lerp_def score_sub_def)
  have a: "map_option stars
     (get_stats_and_rating [''PSNR'' \<mapsto> [PInf, PInf]] [''PSNR'' \<mapsto> [PInf, PInf]] ''PSNR'')
   = Some ''(*)''"
    by (simp add: get_stats_and_rating_def star_label_def py_max_def py_min_def score_sub_def
        np_percentile_def np_sort_def lerp_def np_std_def np_mean_def np_sum_def)
  have b: "diagnostic_power ''Intra_Meso_Amp'' (Some [Num 30, PInf]) ''Inter_B'' [Num 30, PInf] = Some True"
    by (simp add: diagnostic_power_def baseline_interval_def check_interval_overlap_def
        py_max_def py_min_def np_percentile_def np_sort_def lerp_def score_sub_def)
  from a b show ?thesis by simp
qed

text \<open>
  Claim C9, amended. For every non-empty list of finite values, comparing the
  distribution against itself yields the verdict None: in the star rating, two columns
  whose entries other than NaN are the same non-empty list of finite values give a
  result with the empty label. In the neighbour-band analysis the baseline bucket itself
  never gets the diagnostic-power flag, whatever its values, and a bucket compared
  against a baseline with the same values gets none when no value is infinite.
\<close>

theorem self_comparison_none:
  assumes "df_intra metric = Some c1" "df_inter metric = Some c2"
    and "dropna c1 = map Num w" "dropna c2 = map Num w" "w \<noteq> []"
  shows "(\<exists>r. get_stats_and_rating df_intra df_inter metric = Some r \<and> stars r = '''')
     \<and> diagnostic_power base_tag base_vals base_tag vals = (if vals = [] then None else Some False)
     \<and> (PInf \<notin> set vals \<and> NInf \<notin> set vals \<longrightarrow>
          diagnostic_power base_tag (Some vals) tag vals = (if vals = [] then None else Some False))"
proof -
  have ne: "map Num w \<noteq> []" using assms(5) by simp
  have "max (percentile w 2.5) (percentile w 2.5) \<le> min (percentile w 97.5) (percentile w 97.5)"
    using percentile_interval[OF assms(5)] by simp
  then have "star_label (Num (percentile w 2.5)) (Num (percentile w 97.5))
      (Num (percentile w 2.5)) (Num (percentile w 97.5))
      (Num (Min (set w))) (Num (Max (set w))) (Num (pstdev w))
      (Num (Min (set w))) (Num (Max (set w))) (Num (pstdev w)) = ''''"
    by (simp only: star_label_Num if_True)
  then have a: "\<exists>r. get_stats_and_rating df_intra df_inter metric = Some r \<and> stars r = ''''"
    using get_stats_and_rating_Some[of df_intra metric c1 df_inter c2 "map Num w" "map Num w",
        OF assms(1-4) ne ne]
    by (simp add: np_percentile_Num[OF assms(5)] np_min_Num[OF assms(5)] np_max_Num[OF assms(5)]
        np_std_Num)
  have c: "diagnostic_power base_tag base_vals base_tag vals = (if vals = [] then None else Some False)"
    by (simp add: diagnostic_power_def Let_def split: prod.splits)
  have b: "diagnostic_power base_tag (Some vals) tag vals = (if vals = [] then None else Some False)"
    if inf: "PInf \<notin> set vals" "NInf \<notin> set vals"
  proof (cases "vals = []")
    case True
    then show ?thesis by (simp add: diagnostic_power_def)
  next
    case nonempty: False
    show ?thesis
    proof (cases "NaN \<in> set vals")
      case True
      with nonempty show ?thesis
        by (simp add: diagnostic_power_def baseline_interval_def np_percentile_def)
    next
      case False
      from finite_scores[OF False inf] obtain u where u: "vals = map Num u" by blast
      with nonempty have un: "u \<noteq> []" by auto
      have "percentile u 2.5 \<le> percentile u 97.5" using un by (rule percentile_interval)
      with nonempty show ?thesis
        unfolding u
        by (simp add: diagnostic_power_def baseline_interval_def np_percentile_Num[OF un]
            check_interval_overlap_def py_max_def py_min_def)
    qed
  qed
  from a b c show ?thesis by blast
qed

theorem self_comparison_none_witness:
  "map_option stars
     (get_stats_and_rating [''SSIM'' \<mapsto> [Num 3, NaN, Num 1]] [''SSIM'' \<mapsto> [Num 3, Num 1, NaN]] ''SSIM'')
   = Some ''''
   \<and> diagnostic_power ''Intra_Meso_Amp'' (Some [Num 3, Num 1]) ''Cross_A_vs_B'' [Num 3, Num 1] = Some False"
proof -
  from self_comparison_none[where df_intra = "[''SSIM'' \<mapsto> [Num 3, NaN, Num 1]]"
      and metric = "''SSIM''" and ?c1.0 = "[Num 3, NaN, Num 1]"
      and df_inter = "[''SSIM'' \<mapsto> [Num 3, Num 1, NaN]]" and ?c2.0 = "[Num 3, Num 1, NaN]"
      and w = "[3, 1]" and vals = "[Num 3, Num 1]" and base_tag = "''Intra_Meso_Amp''"
      and base_vals = "None" and tag = "''Cross_A_vs_B''"]
  show ?thesis by auto
qed

subsection \<open>Similarity evaluation\<close>

lemma uint_astype_uint8:
  assumes "0 \<le> x" "x < 256"
  shows "uint (astype_uint8 x) = \<lfloor>x\<rfloor>"
proof -
  have "0 \<le> \<lfloor>x\<rfloor>" "\<lfloor>x\<rfloor> < 256" using assms by (simp_all add: floor_less_iff)
  then show ?thesis
    using assms by (simp add: astype_uint8_def trunc_toward_zero_def uint_word_of_int)
qed

lemma calc_pair_metrics_mismatch:
  "imread E p1 = Some i1 \<Longrightarrow> imread E p2 = Some i2 \<Longrightarrow> shape i1 \<noteq> shape i2 \<Longrightarrow>
   calc_pair_metrics E p1 p2 = Map.empty"
  by (simp add: calc_pair_metrics_def)

lemma example_run_shapes:
  "shape (replicate 8 (replicate 8 (1 / 2 :: real))) = (8, 8)"
  "shape (replicate 8 (replicate 7 (1 / 2 :: real))) = (8, 7)"
  by (simp_all add: shape_def numeral_eq_Suc)

lemma calc_pair_metrics_sewar:
  assumes "imread E p1 = Some i1" "imread E p2 = Some i2" "shape i1 = shape i2"
    and "mse E i1 i2 = Some a" "psnr E i1 i2 = Some b" "ssim E i1 i2 = Some c"
    and "SEWAR_AVAILABLE E"
  shows "calc_pair_metrics E p1 p2 ''VIF'' = Some (or_nan (vifp E (to_uint8 i1) (to_uint8 i2)))"
    and "calc_pair_metrics E p1 p2 ''MS-SSIM'' = Some (or_nan (msssim E (to_uint8 i1) (to_uint8 i2)))"
  using assms by (simp_all add: calc_pair_metrics_def Let_def split: option.splits)

lemma calculate_all_metrics_sewar:
  assumes "path_exists E p1" "path_exists E p2"
    and "imread E p1 = Some i1" "imread E p2 = Some i2" "shape i1 = shape i2"
    and "mse E i1 i2 = Some a" "psnr E i1 i2 = Some b" "ssim E i1 i2 = Some c"
    and "SEWAR_AVAILABLE E"
  shows "\<exists>m. calculate_all_metrics E p1 p2 = Some m
     \<and> m ''VIF'' = Some (or_nan (vifp E (to_uint8 i1) (to_uint8 i2)))
     \<and> m ''MS-SSIM'' = Some (or_nan (msssim E (to_uint8 i1) (to_uint8 i2)))"
  using assms by (simp add: calculate_all_metrics_def Let_def)

lemma calculate_all_metrics_resized:
  assumes "path_exists E p1" "path_exists E p2"
    and "imread E p1 = Some i1" "imread E p2 = Some i2" "shape i1 \<noteq> shape i2"
    and "resize E i2 (shape i1) = Some r"
    and "mse E i1 r = Some a" "psnr E i1 r = Some b" "ssim E i1 r = Some c"
  shows "\<exists>m. calculate_all_metrics E p1 p2 = Some m
     \<and> m ''MSE'' = Some a \<and> m ''PSNR'' = Some b \<and> m ''SSIM'' = Some c"
  using assms by (simp add: calculate_all_metrics_def Let_def)

text \<open>
  Claim C5, as stated, fails for the orchestrator: for the two files of the example
  run, whose images have the shapes 8 by 8 and 8 by 7, \<^verbatim>\<open>calculate_all_metrics\<close>
  returns a dictionary with scores.
\<close>

theorem shape_mismatch_scored_by_orchestrator:
  "imread example_run ''Scan_A.png'' = Some (replicate 8 (replicate 8 (1 / 2)))
   \<and> imread example_run ''Scan_B.png'' = Some (replicate 8 (replicate 7 (1 / 2)))
   \<and> shape (replicate 8 (replicate 8 (1 / 2 :: real))) \<noteq> shape (replicate 8 (replicate 7 (1 / 2 :: real)))
   \<and> calculate_all_metrics example_run ''Scan_A.png'' ''Scan_B.png'' =
       Some [''MSE'' \<mapsto> Num 0, ''PSNR'' \<mapsto> Num 100, ''SSIM'' \<mapsto> Num 1,
             ''VIF'' \<mapsto> NaN, ''MS-SSIM'' \<mapsto> NaN, ''LPIPS'' \<mapsto> NaN]
   \<and> calculate_all_metrics example_run ''Scan_A.png'' ''Scan_B.png'' \<noteq> Some Map.empty
   \<and> calculate_all_metrics example_run ''Scan_A.png'' ''Scan_B.png'' \<noteq> None"
proof -
  have res: "calculate_all_metrics example_run ''Scan_A.png'' ''Scan_B.png'' =
       Some [''MSE'' \<mapsto> Num 0, ''PSNR'' \<mapsto> Num 100, ''SSIM'' \<mapsto> Num 1,
             ''VIF'' \<mapsto> NaN, ''MS-SSIM'' \<mapsto> NaN, ''LPIPS'' \<mapsto> NaN]"
    by (simp add: calculate_all_metrics_def example_run_def example_run_shapes)
  have ne: "[''MSE'' \<mapsto> Num 0, ''PSNR'' \<mapsto> Num 100, ''SSIM'' \<mapsto> Num 1,
             ''VIF'' \<mapsto> NaN, ''MS-SSIM'' \<mapsto> NaN, ''LPIPS'' \<mapsto> NaN] \<noteq> Map.empty"
    by simp
  show ?thesis
    unfolding res using ne by (simp add: example_run_def example_run_shapes)
qed

text \<open>
  Claim C5, amended. For two files whose images have different shapes, the pair
  scoring of the neighbour-band analysis, \<^verbatim>\<open>calc_pair_metrics\<close>, returns the empty
  dictionary: no metric score at all. The orchestrator's \<^verbatim>\<open>calculate_all_metrics\<close>
  instead resizes the target image to the shape of the reference image and scores the
  reference against the resized image.
\<close>

theorem shape_mismatch_policy:
  assumes "imread E p1 = Some i1" "imread E p2 = Some i2" "shape i1 \<noteq> shape i2"
    and "path_exists E p1" "path_exists E p2"
    and "resize E i2 (shape i1) = Some r"
    and "mse E i1 r = Some a" "psnr E i1 r = Some b" "ssim E i1 r = Some c"
  shows "calc_pair_metrics E p1 p2 = Map.empty
     \<and> dom (calc_pair_metrics E p1 p2) = {}
     \<and> (\<exists>m. calculate_all_metrics E p1 p2 = Some m
           \<and> m ''MSE'' = Some a \<and> m ''PSNR'' = Some b \<and> m ''SSIM'' = Some c)"
proof -
  have "calc_pair_metrics E p1 p2 = Map.empty"
    using assms(1-3) by (rule calc_pair_metrics_mismatch)
  moreover have "\<exists>m. calculate_all_metrics E p1 p2 = Some m
           \<and> m ''MSE'' = Some a \<and> m ''PSNR'' = Some b \<and> m ''SSIM'' = Some c"
    using assms(4,5,1,2,3,6-9) by (rule calculate_all_metrics_resized)
  ultimately show ?thesis by simp
qed

theorem shape_mismatch_policy_witness:
  "calc_pair_metrics example_run ''Scan_A.png'' ''Scan_B.png'' = Map.empty
   \<and> map_option (\<lambda>m. m ''MSE'') (calculate_all_metrics example_run ''Scan_A.png'' ''Scan_B.png'')
       = Some (Some (Num 0))"
proof -
  have a: "imread example_run ''Scan_A.png'' = Some (replicate 8 (replicate 8 (1 / 2)))"
    and b: "imread example_run ''Scan_B.png'' = Some (replicate 8 (replicate 7 (1 / 2)))"
    and s: "shape (replicate 8 (replicate 8 (1 / 2 :: real))) \<noteq> shape (replicate 8 (replicate 7 (1 / 2 :: real)))"
    and e: "path_exists example_run ''Scan_A.png''" "path_exists example_run ''Scan_B.png''"
    and r: "resize example_run (replicate 8 (replicate 7 (1 / 2))) (shape (replicate 8 (replicate 8 (1 / 2 :: real))))
              = Some (replicate 8 (replicate 8 (1 / 2)))"
    and m: "mse example_run (replicate 8 (replicate 8 (1 / 2))) (replicate 8 (replicate 8 (1 / 2))) = Some (Num 0)"
      "psnr example_run (replicate 8 (replicate 8 (1 / 2))) (replicate 8 (replicate 8 (1 / 2))) = Some (Num 100)"
      "ssim example_run (replicate 8 (replicate 8 (1 / 2))) (replicate 8 (replicate 8 (1 / 2))) = Some (Num 1)"
    by (simp_all add: example_run_def example_run_shapes)
  from shape_mismatch_policy[OF a b s e r m] show ?thesis by auto
qed

subsection \<open>Quantization to bytes\<close>

lemma round_half_even_int: "round_half_even (of_int m) = m"
  by (simp add: round_half_even_def)

lemma round_half_even_nonneg: "0 \<le> y \<Longrightarrow> 0 \<le> round_half_even y"
  by (auto simp: round_half_even_def Let_def)

lemma round_half_even_le:
  assumes "y \<le> of_int M"
  shows "round_half_even y \<le> M"
proof (cases "y = of_int \<lfloor>y\<rfloor>")
  case True
  then have "round_half_even y = \<lfloor>y\<rfloor>" by (simp add: round_half_even_def)
  then show ?thesis using assms by (simp add: floor_le_iff)
next
  case False
  then have "of_int \<lfloor>y\<rfloor> < y" using of_int_floor_le[of y] by linarith
  then have "\<lfloor>y\<rfloor> < M" using assms by linarith
  moreover have "round_half_even y \<le> \<lfloor>y\<rfloor> + 1" by (auto simp: round_half_even_def Let_def)
  ultimately show ?thesis by linarith
qed

lemma floor_log2:
  assumes "0 < x" "2 powr of_int e \<le> x" "x < 2 powr (of_int e + 1)"
  shows "\<lfloor>log 2 x\<rfloor> = e"
proof -
  have "of_int e \<le> log 2 x" using assms(1,2) by (simp add: le_log_iff)
  moreover have "log 2 x < of_int e + 1" using assms(1,3) by (simp add: log_less_iff)
  ultimately show ?thesis by linarith
qed

lemma fl64_eval:
  assumes "0 < x" "2 powr of_int e \<le> x" "x < 2 powr (of_int e + 1)"
  shows "fl64 x = of_int (round_half_even (x / 2 powr (of_int e - 52))) * 2 powr (of_int e - 52)"
  using assms floor_log2[OF assms] by (simp add: fl64_def Let_def)

lemma fl64_bounds:
  assumes "0 \<le> x" "x \<le> 255"
  shows "0 \<le> fl64 x" and "fl64 x \<le> 255"
proof -
  have "0 \<le> fl64 x \<and> fl64 x \<le> 255"
  proof (cases "x = 0")
    case True
    then show ?thesis by (simp add: fl64_def)
  next
    case False
    then have pos: "0 < x" using assms(1) by simp
    define e where "e = \<lfloor>log 2 x\<rfloor>"
    define ulp :: real where "ulp = 2 powr (of_int e - 52)"
    have up: "0 < ulp" unfolding ulp_def by simp
    have f: "fl64 x = of_int (round_half_even (x / ulp)) * ulp"
      using pos False by (simp add: fl64_def Let_def e_def ulp_def)
    have "log 2 x < log 2 256" using pos assms(2) by simp
    also have "log 2 256 = 8"
    proof -
      have "log 2 (2 ^ 8) = real 8" by (rule log_pow_cancel) simp_all
      then show ?thesis by simp
    qed
    finally have e7: "e \<le> 7" unfolding e_def by linarith
    define k where "k = nat (52 - e)"
    have k: "of_int e - 52 = - real k" unfolding k_def using e7 by simp
    have ulp2: "ulp = 1 / 2 ^ k" unfolding ulp_def k by (simp add: powr_minus powr_realpow divide_simps)
    have "x / ulp \<le> 255 / ulp" using assms(2) up by (simp add: divide_right_mono)
    also have "255 / ulp = of_int (255 * 2 ^ k)" unfolding ulp2 by simp
    finally have "round_half_even (x / ulp) \<le> 255 * 2 ^ k" by (rule round_half_even_le)
    then have "of_int (round_half_even (x / ulp)) \<le> (of_int (255 * 2 ^ k) :: real)"
      by (simp only: of_int_le_iff)
    then have "of_int (round_half_even (x / ulp)) * ulp \<le> of_int (255 * 2 ^ k) * ulp"
      using up by (simp add: mult_right_mono)
    also have "of_int (255 * 2 ^ k) * ulp = 255" unfolding ulp2 by simp
    finally have hi: "fl64 x \<le> 255" unfolding f .
    have "0 \<le> x / ulp" using pos up by simp
    then have "0 \<le> round_half_even (x / ulp)" by (rule round_half_even_nonneg)
    then have lo: "0 \<le> fl64 x" unfolding f using up by simp
    from lo hi show ?thesis by simp
  qed
  then show "0 \<le> fl64 x" and "fl64 x \<le> 255" by simp_all
qed

lemma fl64_quarter_of_255: "fl64 (1 / 4 * 255) = 255 / 4"
proof -
  have p5: "(2::real) powr of_int 5 = 32" "(2::real) powr (of_int 5 + 1) = 64"
    "(2::real) powr (of_int 5 - 52) = 1 / 2 ^ 47"
    by (simp_all add: powr_minus divide_simps)
  have "fl64 (255 / 4) =
      of_int (round_half_even ((255 / 4 :: real) / 2 powr (of_int 5 - 52))) * 2 powr (of_int 5 - 52)"
    by (rule fl64_eval) (simp_all add: p5)
  also have "(255 / 4 :: real) / 2 powr (of_int 5 - 52) = of_int (255 * 2 ^ 45)"
    unfolding p5 by simp
  also have "of_int (round_half_even (of_int (255 * 2 ^ 45))) * 2 powr (of_int 5 - 52) = (255 / 4 :: real)"
    unfolding round_half_even_int p5 by simp
  finally show ?thesis by simp
qed

lemma fl64_grey_level_1: "fl64 (282578800148737 / 2 ^ 56 * 255) = 1"
proof -
  let ?x = "282578800148737 / 2 ^ 56 * 255 :: real"
  have pm: "(2::real) powr of_int (- 1) = 1 / 2" "(2::real) powr (of_int (- 1) + 1) = 1"
    "(2::real) powr (of_int (- 1) - 52) = 1 / 2 ^ 53"
    by (simp_all add: powr_minus divide_simps)
  have "fl64 ?x =
      of_int (round_half_even (?x / 2 powr (of_int (- 1) - 52))) * 2 powr (of_int (- 1) - 52)"
    by (rule fl64_eval) (simp_all add: pm)
  also have "?x / 2 powr (of_int (- 1) - 52) = 72057594037927935 / 8"
    unfolding pm by simp
  also have "round_half_even (72057594037927935 / 8 :: real) = 2 ^ 53"
    by (simp add: round_half_even_def Let_def)
  finally show ?thesis unfolding pm by simp
qed

text \<open>
  Claim C6, as stated, fails: the value \<open>1/4\<close> is quantized to the byte 63, while the
  product \<open>1/4 * 255 = 63.75\<close>, which float64 represents exactly, rounds to 64.
\<close>

theorem quantization_is_not_rounding:
  "to_uint8 [[1 / 4]] = [[63]]
   \<and> fl64 (1 / 4 * 255) = 63.75
   \<and> round (fl64 (1 / 4 * 255)) = 64
   \<and> uint (to_uint8 [[1 / 4]] ! 0 ! 0) \<noteq> round (1 / 4 * 255 :: real)"
proof -
  have f: "fl64 (255 / 4) = 255 / 4" using fl64_quarter_of_255 by simp
  have a: "to_uint8 [[1 / 4]] = [[63]]"
    by (simp add: to_uint8_def f astype_uint8_def trunc_toward_zero_def)
  have b: "round (fl64 (255 / 4)) = 64" unfolding f by (simp add: round_def)
  have c: "fl64 (1 / 4 * 255) = 63.75" using f by simp
  have d: "round (fl64 (1 / 4 * 255)) = 64" using b by simp
  have e: "uint (to_uint8 [[1 / 4]] ! 0 ! 0) \<noteq> round (1 / 4 * 255 :: real)"
    unfolding a by (simp add: round_def)
  from a c d e show ?thesis by blast
qed

text \<open>
  Claim C6, amended. Before MS-SSIM and VIF are computed, both input images are
  quantized to unsigned 8-bit by truncation: for a pixel value \<open>v\<close> in \<open>[0, 1]\<close> the byte
  is the integer part of the float64 product \<open>v * 255\<close>, which is that product rounded
  to the nearest integer, or one less. Both scoring functions hand the quantized images
  of both inputs to the VIF and MS-SSIM calls.
\<close>

theorem quantization_truncates:
  assumes "i < length img" "j < length (img ! i)"
    and "0 \<le> img ! i ! j" "img ! i ! j \<le> 1"
    and "imread E p1 = Some i1" "imread E p2 = Some i2" "shape i1 = shape i2"
    and "mse E i1 i2 = Some a" "psnr E i1 i2 = Some b" "ssim E i1 i2 = Some c"
    and "SEWAR_AVAILABLE E" "path_exists E p1" "path_exists E p2"
  shows "uint (to_uint8 img ! i ! j) = \<lfloor>fl64 (img ! i ! j * 255)\<rfloor>
     \<and> round (fl64 (img ! i ! j * 255)) - 1 \<le> \<lfloor>fl64 (img ! i ! j * 255)\<rfloor>
     \<and> \<lfloor>fl64 (img ! i ! j * 255)\<rfloor> \<le> round (fl64 (img ! i ! j * 255))
     \<and> calc_pair_metrics E p1 p2 ''VIF'' = Some (or_nan (vifp E (to_uint8 i1) (to_uint8 i2)))
     \<and> calc_pair_metrics E p1 p2 ''MS-SSIM'' = Some (or_nan (msssim E (to_uint8 i1) (to_uint8 i2)))
     \<and> (\<exists>m. calculate_all_metrics E p1 p2 = Some m
           \<and> m ''VIF'' = Some (or_nan (vifp E (to_uint8 i1) (to_uint8 i2)))
           \<and> m ''MS-SSIM'' = Some (or_nan (msssim E (to_uint8 i1) (to_uint8 i2))))"
proof -
  let ?x = "fl64 (img ! i ! j * 255)"
  have px: "to_uint8 img ! i ! j = astype_uint8 ?x"
    using assms(1,2) by (simp add: to_uint8_def)
  have "0 \<le> img ! i ! j * 255" "img ! i ! j * 255 \<le> 255" using assms(3,4) by simp_all
  then have "0 \<le> ?x" "?x \<le> 255" by (rule fl64_bounds)+
  then have "0 \<le> ?x" "?x < 256" by simp_all
  then have q: "uint (to_uint8 img ! i ! j) = \<lfloor>?x\<rfloor>"
    unfolding px by (rule uint_astype_uint8)
  have r1: "round ?x - 1 \<le> \<lfloor>?x\<rfloor>" unfolding round_def by linarith
  have r2: "\<lfloor>?x\<rfloor> \<le> round ?x" unfolding round_def by linarith
  note s = calc_pair_metrics_sewar[OF assms(5-11)]
  note o = calculate_all_metrics_sewar[OF assms(12,13) assms(5-11)]
  from q r1 r2 s o show ?thesis by blast
qed

theorem quantization_truncates_witness:
  "uint (to_uint8 [[282578800148737 / 2 ^ 56, 1 / 4]] ! 0 ! 0) = 1
   \<and> calc_pair_metrics example_run_sewar ''Scan_A.png'' ''Scan_A.png'' ''VIF'' = Some (Num 1)
   \<and> calc_pair_metrics example_run_sewar ''Scan_A.png'' ''Scan_A.png'' ''MS-SSIM'' = Some NaN"
proof -
  let ?A = "replicate 8 (replicate 8 (1 / 2 :: real))"
  let ?I = "[[282578800148737 / 2 ^ 56, 1 / 4 :: real]]"
  have px: "0 < length ?I" "0 < length (?I ! 0)" "0 \<le> ?I ! 0 ! 0" "?I ! 0 ! 0 \<le> 1"
    by simp_all
  have rd: "imread example_run_sewar ''Scan_A.png'' = Some ?A"
    and sh: "shape ?A = shape ?A"
    and m: "mse example_run_sewar ?A ?A = Some (Num 0)" "psnr example_run_sewar ?A ?A = Some (Num 100)"
      "ssim example_run_sewar ?A ?A = Some (Num 1)"
    and av: "SEWAR_AVAILABLE example_run_sewar"
    and ex: "path_exists example_run_sewar ''Scan_A.png''"
    by (simp_all add: example_run_sewar_def example_run_def)
  have v: "or_nan (vifp example_run_sewar (to_uint8 ?A) (to_uint8 ?A)) = Num 1"
    "or_nan (msssim example_run_sewar (to_uint8 ?A) (to_uint8 ?A)) = NaN"
    by (simp_all add: example_run_sewar_def example_run_def or_nan_def)
  have g: "fl64 (?I ! 0 ! 0 * 255) = 1" using fl64_grey_level_1 by simp
  from quantization_truncates[OF px rd rd sh m av ex ex]
  show ?thesis unfolding v g by simp
qed

subsection \<open>Auxiliary facts\<close>

lemma filter_fst_concat_rows:
  "distinct is \<Longrightarrow>
   map snd (filter (\<lambda>p. fst p = i) (concat (map (\<lambda>k. map (Pair k) (f k)) is))) =
     (if i \<in> set is then f i else [])"
proof (induction "is")
  case Nil
  then show ?case by simp
next
  case (Cons k ks)
  have row: "map snd (filter (\<lambda>p. fst p = i) (map (Pair k) (f k))) = (if k = i then f k else [])"
    by (induction "f k") (auto simp: filter_map comp_def)
  from Cons show ?case
    by (auto simp: row)
qed

subsection \<open>Comparison tags\<close>

text \<open>
  Claim C4. Every pair of folder names receives exactly one comparison type, by the
  rule: equal names give Intra; otherwise, if either name is the reference set, Inter;
  otherwise Cross. The three type names are pairwise different, so the type is unique.
\<close>

theorem comparison_tag_rule:
  "c_type_of ref a b =
     (if a = b then ''Intra'' else if a = ref \<or> b = ref then ''Inter'' else ''Cross'')
   \<and> ''Intra'' \<noteq> ''Inter'' \<and> ''Intra'' \<noteq> ''Cross'' \<and> ''Inter'' \<noteq> ''Cross''"
  by (simp add: c_type_of_def comparison_tag_def)

subsection \<open>Intra neighbour band\<close>

text \<open>
  Claim C3. With the Intra tag, neighbour depth \<open>d\<close> and a sequence of length \<open>N\<close>, the
  partners of source index \<open>i\<close> are exactly \<open>i + 1, \<dots>, min (i + d) (N - 1)\<close>, both as the
  range computed for \<open>i\<close> and as the second components of the pairs the loop scores
  with first component \<open>i\<close> (none when \<open>i\<close> is not an index of the sequence). For
  \<open>d = 5\<close> and \<open>N = 10\<close>, index 0 has the partners 1 to 5 and index 8 the partner 9.
\<close>

theorem intra_partners:
  "partners ''Intra'' d N N i = [i + 1..min (i + d) (int N - 1)]
   \<and> set (partners ''Intra'' d N N i) = {j. i + 1 \<le> j \<and> j \<le> min (i + d) (int N - 1)}
   \<and> map snd (filter (\<lambda>p. fst p = i) (compared_pairs ''Intra'' d N N)) =
       (if 0 \<le> i \<and> i < int N then [i + 1..min (i + d) (int N - 1)] else [])
   \<and> partners ''Intra'' NEIGHBOR_DEPTH 10 10 0 = [1, 2, 3, 4, 5]
   \<and> partners ''Intra'' NEIGHBOR_DEPTH 10 10 8 = [9]"
proof -
  have p: "partners ''Intra'' d N N k = [k + 1..min (k + d) (int N - 1)]" for k
  proof -
    have "min (k + 1 + d) (int N) - 1 = min (k + d) (int N - 1)" by linarith
    then show ?thesis by (simp add: partners_def j_range_def py_range_def)
  qed
  have s: "set (partners ''Intra'' d N N i) = {j. i + 1 \<le> j \<and> j \<le> min (i + d) (int N - 1)}"
    unfolding p by auto
  have c: "map snd (filter (\<lambda>p. fst p = i) (compared_pairs ''Intra'' d N N)) =
       (if 0 \<le> i \<and> i < int N then [i + 1..min (i + d) (int N - 1)] else [])"
    unfolding compared_pairs_def
    by (subst filter_fst_concat_rows) (auto simp: py_range_def p)
  have e0: "partners ''Intra'' NEIGHBOR_DEPTH 10 10 0 = [1, 2, 3, 4, 5]"
    by (simp add: partners_def j_range_def py_range_def NEIGHBOR_DEPTH_def upto.simps)
  have e8: "partners ''Intra'' NEIGHBOR_DEPTH 10 10 8 = [9]"
    by (simp add: partners_def j_range_def py_range_def NEIGHBOR_DEPTH_def upto.simps)
  from p s c e0 e8 show ?thesis by blast
qed

end
